theory Spec2Isabelle
  imports Complex_Main "HOL-Library.Word" "HOL-Library.Signed_Division"
begin

section \<open>Book generation (command/genbook.cpp): a shallow embedding\<close>

text \<open>
  The theory follows \<^verbatim>\<open>src/cpp/command/genbook.cpp\<close>: the driver loop of
  \<^verbatim>\<open>MainCmds::genbook\<close>, the start-up checks, the bonus file, and the lambdas
  \<^verbatim>\<open>findNewMovesAlreadyLocked\<close>, \<^verbatim>\<open>setNodeThisValues...\<close>,
  \<^verbatim>\<open>searchAndUpdateNodeThisValues\<close>, \<^verbatim>\<open>expandFromSearchResultRecursively\<close>,
  \<^verbatim>\<open>expandNode\<close> and \<^verbatim>\<open>testNode\<close> of \<^verbatim>\<open>MainCmds::checkbook\<close>.

  Conventions.
  \<^item> A C++ \<^verbatim>\<open>int\<close> is a \<open>32 word\<close> read with \<open>sint\<close>; \<^verbatim>\<open>int64_t\<close> counters that
    are only compared are \<open>int\<close>.
  \<^item> A \<^verbatim>\<open>throw\<close>, a failed \<^verbatim>\<open>assert\<close> and undefined behaviour (division by zero,
    dereferencing a null handle) are the constructor \<open>Raised\<close> of \<open>outcome\<close>, which keeps
    the state reached when the error happened.
  \<^item> \<^verbatim>\<open>double\<close> and \<^verbatim>\<open>float\<close> values are only stored, copied and compared by the
    code modelled here; they are rationals. The one place that calls \<^verbatim>\<open>pow\<close> takes it
    as a parameter.
\<close>

type_synonym int32 = "32 word"
type_synonym double = rat
type_synonym Loc = nat
type_synonym BookHash = nat

datatype error =
    StringError string
  | DivisionByZero
  | SignedOverflow
  | NullBookNode
  | NullSearchNode
  | IndexOutOfRange
  | AssertionFailed string

datatype ('a, 's) outcome = Raised error 's | Done 'a 's

subsection \<open>The expansion loop of \<^verbatim>\<open>MainCmds::genbook\<close> (lines 1160-1207)\<close>

text \<open>
  \<^verbatim>\<open>a % b\<close> on \<^verbatim>\<open>int\<close>: the remainder of the division truncated towards zero;
  undefined for \<open>b = 0\<close> and for \<^verbatim>\<open>INT_MIN % -1\<close>.
\<close>

definition cppMod :: "int32 \<Rightarrow> int32 \<Rightarrow> error + int32" where
  "cppMod a b =
     (if b = 0 then Inl DivisionByZero
      else if sint a = - (2 ^ 31) \<and> sint b = - 1 then Inl SignedOverflow
      else Inr (word_of_int (sint a smod sint b)))"

text \<open>\<^verbatim>\<open>a / 2\<close> on \<^verbatim>\<open>int\<close>: truncated towards zero; the divisor is the constant 2.\<close>

definition cppHalf :: "int32 \<Rightarrow> int32" where
  "cppHalf a = word_of_int (sint a sdiv 2)"

text \<open>\<^verbatim>\<open>std::min(a, b)\<close> on \<^verbatim>\<open>int\<close>: \<^verbatim>\<open>(b < a) ? b : a\<close>.\<close>

definition stdMin :: "int32 \<Rightarrow> int32 \<Rightarrow> int32" where
  "stdMin a b = (if sint b < sint a then b else a)"

text \<open>The argument of \<^verbatim>\<open>book->getNextNToExpand\<close> (line 1175).\<close>

definition numToExpand :: "int32 \<Rightarrow> int32 \<Rightarrow> int32" where
  "numToExpand iteration numToExpandPerIteration =
     stdMin (1 + cppHalf iteration) numToExpandPerIteration"

text \<open>
  What one run of the loop does, in order: saving the book, and asking the Selector for
  nodes (the expansion of those nodes by the worker threads and \<^verbatim>\<open>book->recompute\<close>
  follow each request; they do not touch the loop's variables).
\<close>

datatype LoopEvent =
    SaveToFile
  | GetNextNToExpand int32

text \<open>
  The command-line values the loop reads, and the \<^verbatim>\<open>shouldStop\<close> flag as the loop
  reads it at the top and at the bottom of iteration \<open>i\<close> (the flag is set by a signal
  handler, so its value is an input).
\<close>

record LoopArgs =
  numIterations :: int32
  saveEveryIterations :: int32
  numToExpandPerIteration :: int32
  shouldStopAtTop :: "int32 \<Rightarrow> bool"
  shouldStopAtBottom :: "int32 \<Rightarrow> bool"

lemma sint_succ_below:
  fixes i n :: int32
  assumes "sint i < sint n"
  shows "sint (i + 1) = sint i + 1"
proof -
  have lo: "- (2 ^ 31) \<le> sint i" using sint_ge [of i] by simp
  have hi: "sint n < 2 ^ 31" using sint_lt [of n] by simp
  have "sint (i + 1) = signed_take_bit 31 (sint i + 1)"
    by (simp add: sint_word_add)
  also have "\<dots> = sint i + 1"
    using lo hi assms by (intro signed_take_bit_int_eq_self) auto
  finally show ?thesis .
qed

function expansionLoop ::
  "LoopArgs \<Rightarrow> int32 \<Rightarrow> LoopEvent list \<Rightarrow> (unit, LoopEvent list) outcome" where
  "expansionLoop args iteration tr =
     (if sint iteration < sint (numIterations args) then
        if shouldStopAtTop args iteration then Done () tr
        else
          (case cppMod iteration (saveEveryIterations args) of
             Inl e \<Rightarrow> Raised e tr
           | Inr r \<Rightarrow>
               let tr1 = (if r = 0 \<and> iteration \<noteq> 0 then tr @ [SaveToFile] else tr);
                   tr2 = tr1 @ [GetNextNToExpand
                                  (numToExpand iteration (numToExpandPerIteration args))]
               in if shouldStopAtBottom args iteration then Done () tr2
                  else expansionLoop args (iteration + 1) tr2)
      else Done () tr)"
  by pat_completeness auto
termination
  by (relation "measure (\<lambda>(args, iteration, tr). nat (sint (numIterations args) - sint iteration))")
     (auto simp: sint_succ_below)

declare expansionLoop.simps [simp del]

definition selectorRequests :: "LoopEvent list \<Rightarrow> int list" where
  "selectorRequests tr = concat (map (\<lambda>e. case e of GetNextNToExpand n \<Rightarrow> [sint n] | _ \<Rightarrow> []) tr)"

definition outcomeState :: "('a, 's) outcome \<Rightarrow> 's" where
  "outcomeState r = (case r of Raised e s \<Rightarrow> s | Done x s \<Rightarrow> s)"

subsection \<open>Positions, search results and the book\<close>

text \<open>
  \<^verbatim>\<open>Player\<close> is a colour; \<^verbatim>\<open>hist.winner\<close> is \<^verbatim>\<open>C_EMPTY\<close> for a drawn game.
\<close>

datatype Player = C_EMPTY | P_BLACK | P_WHITE

text \<open>
  The fields of \<^verbatim>\<open>BoardHistory\<close> that genbook.cpp reads. The board of a position is
  \<^verbatim>\<open>hist.getRecentBoard(0)\<close> at every place of genbook.cpp that passes a board next to
  a history, so the model passes the history only.
\<close>

record BoardHistory =
  moveHistory :: "(Loc \<times> Player) list"
  presumedNextMovePla :: Player
  isGameFinished :: bool
  isPastNormalPhaseEnd :: bool
  isNoResult :: bool
  winner :: Player
  finalWhiteMinusBlackScore :: double

text \<open>
  \<^verbatim>\<open>struct ReportedSearchValues\<close> as search/reportedsearchvalues.h declares it.
\<close>

record ReportedSearchValues =
  winValue :: double
  lossValue :: double
  winLossValue :: double
  utility :: double
  weight :: double
  visits :: int

text \<open>
  A node of the search graph, by what genbook.cpp reads of it: \<^verbatim>\<open>nextPla\<close>, the children
  array as \<^verbatim>\<open>iterateAndCountChildrenInArray\<close> counts it (move and pointer of each
  allocated child), \<^verbatim>\<open>stats.visits\<close>, whether \<^verbatim>\<open>getNNOutput()\<close> is non-null, and the
  results of the queries \<^verbatim>\<open>getPlaySelectionValues\<close> (success, locs, values),
  \<^verbatim>\<open>getPrunedNodeValues\<close>, \<^verbatim>\<open>getSharpScore\<close> (success and value each) and
  \<^verbatim>\<open>getShallowAverageShorttermWLAndScoreError\<close>. Pointers are numbers; a pointer
  with no entry in \<open>searchNodes\<close> is null or dangling.
\<close>

record SearchNode =
  nextPla :: Player
  children :: "(Loc \<times> nat) list"
  stats_visits :: int
  hasNNOutput :: bool
  playSelectionValues :: "bool \<times> Loc list \<times> double list"
  prunedNodeValues :: "bool \<times> ReportedSearchValues"
  sharpScore :: "bool \<times> double"
  shallowAverageShorttermWLAndScoreError :: "double \<times> double"

text \<open>
  A search after \<^verbatim>\<open>runWholeSearch\<close>. Its root position is the one given to
  \<^verbatim>\<open>setPosition\<close>, so \<^verbatim>\<open>getRootHist()\<close> is the history the caller holds.
\<close>

record Search =
  rootNode :: nat
  searchNodes :: "nat \<rightharpoonup> SearchNode"

text \<open>The fields of \<^verbatim>\<open>SearchParams\<close> that genbook.cpp reads or writes.\<close>

record SearchParams =
  maxVisits :: int
  wideRootNoise :: double
  cpuctExploration :: double
  cpuctExplorationLog :: double

text \<open>
  \<^verbatim>\<open>BookValues\<close> (the node's \<^verbatim>\<open>thisValuesNotInBook\<close>), with the fields genbook.cpp
  writes, and of \<^verbatim>\<open>recursiveValues()\<close> the one field genbook.cpp reads.
\<close>

record BookValues =
  winLossValue :: double
  scoreMean :: double
  sharpScoreMean :: double
  winLossError :: double
  scoreError :: double
  scoreStdev :: double
  maxPolicy :: double
  weight :: double
  visits :: double

record RecursiveBookValues =
  visits :: double

text \<open>
  Modelled from the spec: the book (book/book.h and book.cpp are not among the sources).
  A node is stored under its canonical hash (\<^verbatim>\<open>node.hash()\<close> is the key) and holds its
  side to move, its valid symmetries,
  \<^verbatim>\<open>childrenInBook\<close> as a list of (canonical move, child hash, raw policy) in the order
  the edges were added, \<^verbatim>\<open>thisValuesNotInBook\<close>, \<^verbatim>\<open>recursiveValues\<close>,
  \<^verbatim>\<open>canExpand\<close> and \<^verbatim>\<open>canReExpand\<close>. A handle \<^verbatim>\<open>SymBookNode\<close> is the hash of its
  node, resolved through the book at every access; the null handle is \<open>None\<close>. Moves are
  given in the node's canonical frame (the symmetry of a handle is the identity).
\<close>

record BookNode =
  pla :: Player
  symmetries :: "nat list"
  moves :: "(Loc \<times> BookHash \<times> double) list"
  thisValuesNotInBook :: BookValues
  recursiveValues :: RecursiveBookValues
  canExpand :: bool
  canReExpand :: bool

text \<open>
  Modelled from the spec: the header of a book (spec 6) as far as genbook.cpp compares
  it with the configuration at load time: the size of the initial board, the rules, the
  initial board and player, the repetition bound, and the cost and bonus constants, in
  the order of lines 267-287 (\<^verbatim>\<open>errorFactor\<close> first,
  \<^verbatim>\<open>utilityPerPolicyForSorting\<close> last); \<^verbatim>\<open>maxVisitsForReExpansion\<close> is a
  field of its own. Boards and rule sets are numbers.
\<close>

record Book =
  bookVersion :: int
  repBound :: int
  maxVisitsForReExpansion :: double
  nodes :: "BookHash \<rightharpoonup> BookNode"
  initialBoardXSize :: int
  initialBoardYSize :: int
  initialRules :: nat
  initialBoard :: nat
  initialPla :: Player
  costParams :: "double list"

text \<open>
  What a run of genbook takes from outside genbook.cpp: the configuration values, the
  constants of headers that are not among the sources, the rules of the game, the
  hashing of positions, the neural net, the search, and whether assertions are compiled
  in (\<^verbatim>\<open>NDEBUG\<close> undefined).

  Lines 556 and 560 of genbook.cpp read \<^verbatim>\<open>remainingSearchValues.expectedScore\<close> and
  \<^verbatim>\<open>remainingSearchValues.expectedScoreStdev\<close>. \<^verbatim>\<open>struct ReportedSearchValues\<close> of
  search/reportedsearchvalues.h declares neither member, so the record above has neither
  field. What the two reads give is a parameter of the environment: a function of the
  values, not further specified.
\<close>

record Env =
  minTreeVisitsToRecord :: int
  maxDepthToRecord :: int
  maxVisitsForLeaves :: int
  params :: SearchParams
  wideRootNoiseBookExplore :: double
  cpuctExplorationLogBookExplore :: double
  logSearchInfo :: bool
  assertsEnabled :: bool
  MAX_ARR_SIZE :: nat
  isLegal :: "BoardHistory \<Rightarrow> Loc \<Rightarrow> Player \<Rightarrow> bool"
  makeBoardMoveAssumeLegal :: "BoardHistory \<Rightarrow> Loc \<Rightarrow> Player \<Rightarrow> BoardHistory"
  getHashAndSymmetry :: "BoardHistory \<Rightarrow> int \<Rightarrow> int \<Rightarrow> BookHash"
  getBoardHistoryReachingHere :: "Book \<Rightarrow> BookHash \<Rightarrow> bool \<times> BoardHistory \<times> Loc list"
  getFullSymmetryNNOutput :: "BoardHistory \<Rightarrow> Player \<Rightarrow> double list"
  getPos :: "Loc \<Rightarrow> nat"
  powDouble :: "double \<Rightarrow> double \<Rightarrow> double"
  runWholeSearch :: "SearchParams \<Rightarrow> BoardHistory \<Rightarrow> nat list \<Rightarrow> int list \<Rightarrow> Search"
  shouldStopAfterSearch :: bool
  expectedScore :: "ReportedSearchValues \<Rightarrow> double"
  expectedScoreStdev :: "ReportedSearchValues \<Rightarrow> double"

text \<open>The lines written to the logger, with the values they print.\<close>

datatype LogLine =
    Log string
  | LogHash string BookHash
  | LogHashes string BookHash BookHash
  | LogMove string Loc
  | LogMoves "Loc list"
  | LogAdding BookHash BookHash Loc
  | LogDebugInfo BoardHistory
  | LogBoardAndMoves BoardHistory "Loc list"

text \<open>
  Modelled from the spec: the operations of a book node that genbook.cpp calls
  (\<^verbatim>\<open>isMoveInBook\<close>, \<^verbatim>\<open>follow\<close>, \<^verbatim>\<open>numUniqueMovesInBook\<close>).
\<close>

definition isMoveInBook :: "BookNode \<Rightarrow> Loc \<Rightarrow> bool" where
  "isMoveInBook n moveLoc = (moveLoc \<in> set (map fst (moves n)))"

definition follow :: "BookNode \<Rightarrow> Loc \<Rightarrow> BookHash option" where
  "follow n moveLoc = map_option fst (map_of (moves n) moveLoc)"

definition numUniqueMovesInBook :: "BookNode \<Rightarrow> nat" where
  "numUniqueMovesInBook n = length (moves n)"

definition emptyBookValues :: BookValues where
  "emptyBookValues =
     \<lparr> winLossValue = 0, scoreMean = 0, sharpScoreMean = 0, winLossError = 0, scoreError = 0,
       scoreStdev = 0, maxPolicy = 0, weight = 0, visits = 0 \<rparr>"

text \<open>
  Modelled from the spec: \<^verbatim>\<open>playAndAddMove\<close> (spec 4.1). It applies the move, hashes the
  resulting position under the book's version, inserts the child if its hash is new
  (expandable, re-expandable, with empty values), and records the edge with its raw
  policy; the child is a transposition when its hash was already in the book. An
  illegal move gives the null handle and changes nothing (genbook.cpp line 849). If the
  edge exists already, the call is a no-op that returns the existing child; the spec
  does not say what the flag is then, it is taken as true, and genbook.cpp calls
  \<^verbatim>\<open>playAndAddMove\<close> only for a move that is not in the book (line 847). The valid
  symmetries of a new child are not computed: its list is empty.
  The arguments \<open>node\<close> and \<open>parent\<close> are the handle of the parent and the node it
  resolves to. The result is the book, the history after the move, the child and
  \<^verbatim>\<open>childIsTransposing\<close>.
\<close>

definition playAndAddMove ::
  "Env \<Rightarrow> Book \<Rightarrow> BookHash \<Rightarrow> BookNode \<Rightarrow> BoardHistory \<Rightarrow> Loc \<Rightarrow> double
     \<Rightarrow> Book \<times> BoardHistory \<times> BookHash option \<times> bool" where
  "playAndAddMove env b node parent hist moveLoc rawPolicy =
     (if \<not> isLegal env hist moveLoc (pla parent) then (b, hist, None, False)
      else
        let nextHist = makeBoardMoveAssumeLegal env hist moveLoc (pla parent) in
        (case follow parent moveLoc of
           Some c \<Rightarrow> (b, nextHist, Some c, True)
         | None \<Rightarrow>
             let h = getHashAndSymmetry env nextHist (repBound b) (bookVersion b);
                 childIsTransposing = (nodes b h \<noteq> None);
                 child = \<lparr> pla = presumedNextMovePla nextHist, symmetries = [],
                           moves = [], thisValuesNotInBook = emptyBookValues,
                           recursiveValues = \<lparr> visits = 0 \<rparr>,
                           canExpand = True, canReExpand = True \<rparr>;
                 ns1 = (if childIsTransposing then nodes b else (nodes b)(h \<mapsto> child));
                 ns2 = ns1(node \<mapsto>
                          parent\<lparr> moves := moves parent @ [(moveLoc, h, rawPolicy)] \<rparr>)
             in (b\<lparr> nodes := ns2 \<rparr>, nextHist, Some h, childIsTransposing)))"

subsection \<open>The state of a worker and the lambdas that write node values\<close>

text \<open>
  The state that the lambdas of \<^verbatim>\<open>MainCmds::genbook\<close> share or pass by reference: the
  book, the logger's lines, the three sets of \<^verbatim>\<open>expandNode\<close> and the vector
  \<^verbatim>\<open>newAndChangedNodes\<close>. A \<^verbatim>\<open>std::set<BookHash>\<close> is the sorted list of its elements
  (the order in which the code iterates over it); the \<^verbatim>\<open>std::set\<close> of search node
  pointers, of which the code only asks membership, is the list of its elements, latest
  insertion first. The model runs one worker; \<^verbatim>\<open>bookMutex\<close> has no counterpart.
\<close>

record GenState =
  book :: Book
  logLines :: "LogLine list"
  nodesHashesToSearch :: "BookHash list"
  nodesHashesToUpdate :: "BookHash list"
  searchNodesRecursedOn :: "nat list"
  newAndChangedNodes :: "BookHash option list"

definition logWrite :: "LogLine \<Rightarrow> GenState \<Rightarrow> GenState" where
  "logWrite l st = st\<lparr> logLines := logLines st @ [l] \<rparr>"

definition setInsert :: "BookHash \<Rightarrow> BookHash list \<Rightarrow> BookHash list" where
  "setInsert h hs = (if h \<in> set hs then hs else insort h hs)"

definition putNode :: "BookHash \<Rightarrow> BookNode \<Rightarrow> GenState \<Rightarrow> GenState" where
  "putNode h n st = st\<lparr> book := (book st)\<lparr> nodes := (nodes (book st))(h \<mapsto> n) \<rparr> \<rparr>"

text \<open>\<^verbatim>\<open>book->getByHash\<close>: the handle of the node, null if there is none.\<close>

definition getByHash :: "Book \<Rightarrow> BookHash \<Rightarrow> BookHash option" where
  "getByHash b h = (case nodes b h of None \<Rightarrow> None | Some n \<Rightarrow> Some h)"

text \<open>\<^verbatim>\<open>getMaxPolicy\<close> (lines 33-39).\<close>

definition getMaxPolicy :: "double list \<Rightarrow> double" where
  "getMaxPolicy policyProbs = foldl (\<lambda>maxPolicy p. if p > maxPolicy then p else maxPolicy) 0 policyProbs"

text \<open>\<^verbatim>\<open>findNewMovesAlreadyLocked\<close> (lines 393-414): the result, the avoid vector and
  \<^verbatim>\<open>isReExpansion\<close>.\<close>

definition findNewMovesAlreadyLocked ::
  "Env \<Rightarrow> Book \<Rightarrow> BoardHistory \<Rightarrow> BookNode \<Rightarrow> bool \<Rightarrow> bool \<times> int list \<times> bool" where
  "findNewMovesAlreadyLocked env b hist constNode allowReExpansion =
     (let isReExpansion = (allowReExpansion \<and> canReExpand constNode \<and>
            RecursiveBookValues.visits (recursiveValues constNode) < maxVisitsForReExpansion b);
          pla = presumedNextMovePla hist;
          step = (\<lambda>(hasAtLeastOneLegalNewMove, avoidMoveUntilByLoc) moveLoc.
            if isLegal env hist moveLoc pla then
              if \<not> isReExpansion \<and> isMoveInBook constNode moveLoc
              then (hasAtLeastOneLegalNewMove, avoidMoveUntilByLoc[moveLoc := 1])
              else (True, avoidMoveUntilByLoc)
            else (hasAtLeastOneLegalNewMove, avoidMoveUntilByLoc));
          r = foldl step (False, replicate (MAX_ARR_SIZE env) 0) [0..<MAX_ARR_SIZE env]
      in (fst r, snd r, isReExpansion))"

text \<open>
  \<^verbatim>\<open>setParamsAndAvoidMovesCompensatingCpuct\<close> (lines 416-439): the parameters the
  search is given. The sum runs over all locs that are not avoided; reading the policy
  array outside its bounds is an error of the model.
\<close>

definition policySumNotAvoided :: "Env \<Rightarrow> double list \<Rightarrow> int list \<Rightarrow> error + double" where
  "policySumNotAvoided env policyProbs avoidMoveUntilByLoc =
     foldl (\<lambda>acc loc.
        case acc of Inl e \<Rightarrow> Inl e
        | Inr policySum \<Rightarrow>
            if loc < length avoidMoveUntilByLoc then
              if avoidMoveUntilByLoc ! loc \<le> 0 then
                if getPos env loc < length policyProbs then
                  if policyProbs ! getPos env loc > 0
                  then Inr (policySum + policyProbs ! getPos env loc)
                  else Inr policySum
                else Inl IndexOutOfRange
              else Inr policySum
            else Inl IndexOutOfRange)
       (Inr 0) [0..<MAX_ARR_SIZE env]"

definition compensateCpuct ::
  "Env \<Rightarrow> BoardHistory \<Rightarrow> SearchParams \<Rightarrow> int list \<Rightarrow> error + SearchParams" where
  "compensateCpuct env hist thisParams avoidMoveUntilByLoc =
     (case policySumNotAvoided env
             (getFullSymmetryNNOutput env hist (presumedNextMovePla hist)) avoidMoveUntilByLoc of
        Inl e \<Rightarrow> Inl e
      | Inr policySum0 \<Rightarrow>
          let policySum1 = max policySum0 (1 / 100000);
              policySum2 = min policySum1 1;
              policySum = powDouble env policySum2 (1 / (4 * wideRootNoise thisParams + 1))
          in Inr (thisParams\<lparr> cpuctExploration := cpuctExploration thisParams / policySum,
                              cpuctExplorationLog := cpuctExplorationLog thisParams / policySum \<rparr>))"

text \<open>\<^verbatim>\<open>setNodeThisValuesNoMoves\<close> (lines 441-462).\<close>

definition setNodeThisValuesNoMoves :: "BookHash \<Rightarrow> GenState \<Rightarrow> (unit, GenState) outcome" where
  "setNodeThisValuesNoMoves node st =
     (case nodes (book st) node of
        None \<Rightarrow> Raised NullBookNode st
      | Some n \<Rightarrow>
          let v = (if pla n = P_WHITE then - (10 ^ 20) else 10 ^ 20);
              nodeValues = \<lparr> winLossValue = v, scoreMean = v, sharpScoreMean = v,
                             winLossError = 0, scoreError = 0, scoreStdev = 0,
                             maxPolicy = 0, weight = 0, visits = 0 \<rparr>
          in Done () (putNode node (n\<lparr> thisValuesNotInBook := nodeValues, canExpand := False \<rparr>) st))"

text \<open>
  \<^verbatim>\<open>setNodeThisValuesTerminal\<close> (lines 464-500). A failed assertion ends the process;
  its state is the one at the start of the lambda.
\<close>

definition setNodeThisValuesTerminal ::
  "Env \<Rightarrow> BookHash \<Rightarrow> BoardHistory \<Rightarrow> GenState \<Rightarrow> (unit, GenState) outcome" where
  "setNodeThisValuesTerminal env node hist st =
     (if assertsEnabled env \<and> \<not> isGameFinished hist
      then Raised (AssertionFailed ''hist.isGameFinished'') st
      else case nodes (book st) node of
        None \<Rightarrow> Raised NullBookNode st
      | Some n \<Rightarrow>
          let score = finalWhiteMinusBlackScore hist;
              signOk = (if winner hist = P_WHITE then score > 0
                        else if winner hist = P_BLACK then score < 0 else score = 0);
              wl = (if isNoResult hist then 0
                    else if winner hist = P_WHITE then 1
                    else if winner hist = P_BLACK then - 1 else 0);
              sc = (if isNoResult hist then 0 else score);
              nodeValues = \<lparr> winLossValue = wl, scoreMean = sc, sharpScoreMean = sc,
                             winLossError = 0, scoreError = 0, scoreStdev = 0,
                             maxPolicy = 1, weight = of_int (maxVisitsForLeaves env),
                             visits = of_int (maxVisitsForLeaves env) \<rparr>
          in if assertsEnabled env \<and> \<not> isNoResult hist \<and> \<not> signOk
             then Raised (AssertionFailed ''hist.finalWhiteMinusBlackScore'') st
             else Done () (putNode node (n\<lparr> thisValuesNotInBook := nodeValues, canExpand := False \<rparr>) st))"

text \<open>
  \<^verbatim>\<open>setNodeThisValuesFromFinishedSearch\<close> (lines 502-565). First the policy with the
  avoided moves set to -1 (lines 536-546); an avoid vector of the wrong size, or a
  position outside the policy array, is a failed assertion, or an out-of-bounds access
  when assertions are compiled out.
\<close>

definition maskAvoidedPolicy :: "Env \<Rightarrow> int list \<Rightarrow> double list \<Rightarrow> error + double list" where
  "maskAvoidedPolicy env avoidMoveUntilByLoc policyProbs =
     (if avoidMoveUntilByLoc = [] then Inr policyProbs
      else if length avoidMoveUntilByLoc \<noteq> MAX_ARR_SIZE env then
        Inl (if assertsEnabled env
             then AssertionFailed ''avoidMoveUntilByLoc.size() == Board::MAX_ARR_SIZE''
             else IndexOutOfRange)
      else
        foldl (\<lambda>acc loc.
           case acc of Inl e \<Rightarrow> Inl e
           | Inr probs \<Rightarrow>
               if avoidMoveUntilByLoc ! loc > 0 then
                 if getPos env loc < length probs then Inr (probs[getPos env loc := - 1])
                 else Inl (if assertsEnabled env
                           then AssertionFailed ''pos >= 0 && pos < NNPos::MAX_NN_POLICY_SIZE''
                           else IndexOutOfRange)
               else Inr probs)
          (Inr policyProbs) [0..<MAX_ARR_SIZE env])"

text \<open>
  The values written at lines 554-564, from the search node and the maximal policy.
  \<^verbatim>\<open>scoreMean\<close> and \<^verbatim>\<open>scoreStdev\<close> are the two reads of members that the header does
  not declare, the parameters of the environment.
\<close>

definition finishedSearchValues :: "Env \<Rightarrow> SearchNode \<Rightarrow> double \<Rightarrow> BookValues" where
  "finishedSearchValues env sn maxPolicyNow =
     (let remainingSearchValues = snd (prunedNodeValues sn);
          errors = shallowAverageShorttermWLAndScoreError sn
      in \<lparr> winLossValue = ReportedSearchValues.winLossValue remainingSearchValues,
           scoreMean = expectedScore env remainingSearchValues,
           sharpScoreMean = snd (sharpScore sn),
           winLossError = fst errors,
           scoreError = snd errors,
           scoreStdev = expectedScoreStdev env remainingSearchValues,
           maxPolicy = maxPolicyNow,
           weight = ReportedSearchValues.weight remainingSearchValues,
           visits = of_int (ReportedSearchValues.visits remainingSearchValues) \<rparr>)"

definition setNodeThisValuesFromFinishedSearch ::
  "Env \<Rightarrow> Search \<Rightarrow> BookHash \<Rightarrow> nat \<Rightarrow> BoardHistory \<Rightarrow> int list \<Rightarrow> GenState
     \<Rightarrow> (unit, GenState) outcome" where
  "setNodeThisValuesFromFinishedSearch env search node searchNode hist avoidMoveUntilByLoc st =
     (case searchNodes search searchNode of
        None \<Rightarrow> Raised NullSearchNode st
      | Some sn \<Rightarrow>
          if assertsEnabled env \<and> \<not> fst (prunedNodeValues sn)
          then Raised (AssertionFailed ''getSuc'') st
          else if assertsEnabled env \<and> \<not> fst (sharpScore sn)
          then Raised (AssertionFailed ''getSuc'') st
          else case nodes (book st) node of
            None \<Rightarrow> Raised NullBookNode st
          | Some n \<Rightarrow>
              (case maskAvoidedPolicy env avoidMoveUntilByLoc
                      (getFullSymmetryNNOutput env hist (pla n)) of
                 Inl e \<Rightarrow> Raised e st
               | Inr policyProbs \<Rightarrow>
                   Done () (putNode node
                     (n\<lparr> thisValuesNotInBook :=
                          finishedSearchValues env sn (getMaxPolicy policyProbs) \<rparr>) st)))"

text \<open>
  \<^verbatim>\<open>searchAndUpdateNodeThisValues\<close> (lines 569-630): the short search that refreshes
  a node's values. The search is run with the parameters and the avoid vector that
  \<^verbatim>\<open>setParamsAndAvoidMovesCompensatingCpuct\<close> sets.
\<close>

definition leafSearchParams :: "Env \<Rightarrow> SearchParams" where
  "leafSearchParams env =
     (params env)\<lparr> maxVisits := min (maxVisits (params env)) (maxVisitsForLeaves env) \<rparr>"

definition searchAndUpdateNodeThisValues :: "Env \<Rightarrow> BookHash \<Rightarrow> GenState \<Rightarrow> (unit, GenState) outcome" where
  "searchAndUpdateNodeThisValues env node st =
     (case nodes (book st) node of
        None \<Rightarrow> Raised NullBookNode st
      | Some n \<Rightarrow>
          (case getBoardHistoryReachingHere env (book st) node of
             (suc, hist, movesToHere) \<Rightarrow>
               if \<not> suc then
                 Raised (StringError ''Terminating since there's not a good way to put the book back into a good state with this node unupdated'')
                   (logWrite (LogHash ''BookHash of node unable to expand: '' node)
                     (logWrite (Log ''or else some hash collision or something else is wrong.'')
                       (logWrite (Log ''WARNING: Failed to get board history reaching node when trying to export to trace book, probably there is some bug'') st)))
               else if isGameFinished hist then setNodeThisValuesTerminal env node hist st
               else
                 (case findNewMovesAlreadyLocked env (book st) hist n False of
                    (foundNewMoves, avoidMoveUntilByLoc, isReExpansion) \<Rightarrow>
                      if \<not> foundNewMoves then setNodeThisValuesNoMoves node st
                      else
                        (case compensateCpuct env hist (leafSearchParams env) avoidMoveUntilByLoc of
                           Inl e \<Rightarrow> Raised e st
                         | Inr thisParams \<Rightarrow>
                             let search = runWholeSearch env thisParams hist (symmetries n)
                                            avoidMoveUntilByLoc;
                                 st1 = (if logSearchInfo env
                                        then logWrite (Log ''Quick search on remaining moves'') st
                                        else st)
                             in setNodeThisValuesFromFinishedSearch env search node
                                  (rootNode search) hist avoidMoveUntilByLoc st1))))"

subsection \<open>The recursive splice: \<^verbatim>\<open>expandFromSearchResultRecursively\<close> (lines 752-901)\<close>

text \<open>The best move by play selection value (lines 780-789): the first maximum.\<close>

definition findBestIdx :: "double list \<Rightarrow> nat" where
  "findBestIdx vals =
     snd (foldl (\<lambda>(bestValue, bestIdx) i.
                   if vals ! i > bestValue then (vals ! i, i) else (bestValue, bestIdx))
            (vals ! 0, 0) [1..<length vals])"

text \<open>
  Lines 767-802, up to the loop over the children: \<open>None\<close> is an early
  \<^verbatim>\<open>return false\<close>, \<open>Some\<close> holds \<^verbatim>\<open>bestLoc\<close>, the children and the full-symmetry
  policy of the position.
\<close>

definition splicePrologue ::
  "Env \<Rightarrow> Search \<Rightarrow> nat \<Rightarrow> BookHash \<Rightarrow> BoardHistory \<Rightarrow> GenState
     \<Rightarrow> ((Loc \<times> (Loc \<times> nat) list \<times> double list) option, GenState) outcome" where
  "splicePrologue env search searchNode node hist st =
     (case searchNodes search searchNode of
        None \<Rightarrow> Raised (if assertsEnabled env then AssertionFailed ''searchNode != NULL''
                       else NullSearchNode) st
      | Some sn \<Rightarrow>
          (case nodes (book st) node of
             None \<Rightarrow> Raised NullBookNode st
           | Some n \<Rightarrow>
               if assertsEnabled env \<and> nextPla sn \<noteq> pla n
               then Raised (AssertionFailed ''searchNode->nextPla == node.pla()'') st
               else
                 (case playSelectionValues sn of
                    (suc, locs, vals) \<Rightarrow>
                      if \<not> suc then
                        if assertsEnabled env then Raised (AssertionFailed ''suc'') st
                        else Done None st
                      else if vals = [] \<or> length locs \<le> findBestIdx vals
                      then Raised IndexOutOfRange st
                      else if children sn = [] \<or> \<not> hasNNOutput sn then Done None st
                      else Done (Some (locs ! findBestIdx vals, children sn,
                                       getFullSymmetryNNOutput env hist (pla n))) st)))"

text \<open>
  Lines 808-811: the child's search node, \<^verbatim>\<open>rawPolicy\<close> and \<^verbatim>\<open>childVisits\<close>, read
  for every child before the test of line 814. The raw policy is read at the position of
  \<^verbatim>\<open>bestLoc\<close>.
\<close>

definition childRawPolicyAndVisits ::
  "Env \<Rightarrow> Search \<Rightarrow> Loc \<Rightarrow> double list \<Rightarrow> nat \<Rightarrow> error + double \<times> int" where
  "childRawPolicyAndVisits env search bestLoc policyProbs childSearchNode =
     (if length policyProbs \<le> getPos env bestLoc then Inl IndexOutOfRange
      else case searchNodes search childSearchNode of
        None \<Rightarrow> Inl NullSearchNode
      | Some csn \<Rightarrow> Inr (policyProbs ! getPos env bestLoc, stats_visits csn))"

definition illegalMoveWarning ::
  "BookHash \<Rightarrow> BookNode \<Rightarrow> BoardHistory \<Rightarrow> Loc \<Rightarrow> GenState \<Rightarrow> GenState" where
  "illegalMoveWarning node n hist moveLoc st =
     putNode node (n\<lparr> canExpand := False \<rparr>)
       (logWrite (Log ''Marking node as done so we don't try to expand it again, but something is probably wrong.'')
         (logWrite (LogHash ''BookHash of parent: '' node)
           (logWrite (LogDebugInfo hist)
             (logWrite (LogMove ''WARNING: Illegal move '' moveLoc) st))))"

text \<open>
  Lines 815-877, the body of the test of line 814 up to the release of the lock, for
  one child of the search node. The result is the child's book node, the history after
  the move, and whether an edge was added (\<^verbatim>\<open>anythingAdded = true\<close>).
  \<open>thenReturn\<close> passes an error on and replaces the result of a call that returned.
\<close>

definition thenReturn :: "('a, 's) outcome \<Rightarrow> 'b \<Rightarrow> ('b, 's) outcome" where
  "thenReturn x r = (case x of Raised e s \<Rightarrow> Raised e s | Done u s \<Rightarrow> Done r s)"

text \<open>Lines 822-842: the move is in the book already.\<close>

definition recordChildInBook ::
  "Env \<Rightarrow> Search \<Rightarrow> BookHash \<Rightarrow> BookNode \<Rightarrow> BoardHistory \<Rightarrow> Loc \<Rightarrow> nat \<Rightarrow> int \<Rightarrow> GenState
     \<Rightarrow> (BookHash \<times> BoardHistory \<times> bool, GenState) outcome" where
  "recordChildInBook env search node n hist moveLoc childSearchNode childVisits st =
     (case follow n moveLoc of
        None \<Rightarrow> Raised NullBookNode st
      | Some child \<Rightarrow>
          let st1 = (if \<not> isLegal env hist moveLoc (pla n)
                     then illegalMoveWarning node n hist moveLoc st else st);
              nextHist = makeBoardMoveAssumeLegal env hist moveLoc (pla n)
          in case nodes (book st1) child of
               None \<Rightarrow> Raised NullBookNode st1
             | Some c \<Rightarrow>
                 if numUniqueMovesInBook c = 0 \<and>
                    RecursiveBookValues.visits (recursiveValues c) < of_int childVisits
                 then thenReturn
                        (setNodeThisValuesFromFinishedSearch env search child
                           childSearchNode nextHist [] st1)
                        (child, nextHist, False)
                 else Done (child, nextHist, False) st1)"

text \<open>Lines 843-876: the move is not in the book; the edge is added.\<close>

definition recordChildNew ::
  "Env \<Rightarrow> Search \<Rightarrow> BookHash \<Rightarrow> BookNode \<Rightarrow> BoardHistory \<Rightarrow> Loc \<Rightarrow> double \<Rightarrow> nat \<Rightarrow> int
     \<Rightarrow> GenState \<Rightarrow> (BookHash \<times> BoardHistory \<times> bool, GenState) outcome" where
  "recordChildNew env search node n hist moveLoc rawPolicy childSearchNode childVisits st =
     (case playAndAddMove env (book st) node n hist moveLoc rawPolicy of
        (b1, nextHist, childOpt, childIsTransposing) \<Rightarrow>
          (case childOpt of
             None \<Rightarrow> Raised NullBookNode (illegalMoveWarning node n nextHist moveLoc st)
           | Some child \<Rightarrow>
               let st1 = logWrite (LogAdding node child moveLoc)
                           (st\<lparr> book := b1,
                                nodesHashesToUpdate := setInsert child (nodesHashesToUpdate st) \<rparr>)
               in case nodes b1 child of
                    None \<Rightarrow> Raised NullBookNode st1
                  | Some c \<Rightarrow>
                      if \<not> childIsTransposing \<or>
                         (numUniqueMovesInBook c = 0 \<and>
                          RecursiveBookValues.visits (recursiveValues c) < of_int childVisits)
                      then thenReturn
                             (setNodeThisValuesFromFinishedSearch env search child
                                childSearchNode nextHist [] st1)
                             (child, nextHist, True)
                      else Done (child, nextHist, True) st1))"

definition recordChild ::
  "Env \<Rightarrow> Search \<Rightarrow> BookHash \<Rightarrow> BoardHistory \<Rightarrow> Loc \<Rightarrow> double \<Rightarrow> nat \<Rightarrow> int \<Rightarrow> GenState
     \<Rightarrow> (BookHash \<times> BoardHistory \<times> bool, GenState) outcome" where
  "recordChild env search node hist moveLoc rawPolicy childSearchNode childVisits st =
     (case nodes (book st) node of
        None \<Rightarrow> Raised NullBookNode st
      | Some n \<Rightarrow>
          if isMoveInBook n moveLoc
          then recordChildInBook env search node n hist moveLoc childSearchNode childVisits st
          else recordChildNew env search node n hist moveLoc rawPolicy childSearchNode
                 childVisits st)"

text \<open>Lines 892-900, after the loop.\<close>

definition spliceEpilogue :: "BookHash \<Rightarrow> bool \<Rightarrow> bool \<Rightarrow> GenState \<Rightarrow> GenState" where
  "spliceEpilogue node anyRecursion anythingAdded st =
     (let st1 = (if anythingAdded \<or> anyRecursion
                 then st\<lparr> nodesHashesToUpdate := setInsert node (nodesHashesToUpdate st) \<rparr>
                 else st)
      in if anythingAdded
         then st1\<lparr> nodesHashesToSearch := setInsert node (nodesHashesToSearch st1) \<rparr>
         else st1)"

function expandFromSearchResultRecursively ::
    "Env \<Rightarrow> Search \<Rightarrow> nat \<Rightarrow> BookHash \<Rightarrow> BoardHistory \<Rightarrow> int \<Rightarrow> GenState
       \<Rightarrow> (bool, GenState) outcome"
  and expandChildren ::
    "Env \<Rightarrow> Search \<Rightarrow> BookHash \<Rightarrow> BoardHistory \<Rightarrow> int \<Rightarrow> Loc \<Rightarrow> double list
       \<Rightarrow> (Loc \<times> nat) list \<Rightarrow> bool \<Rightarrow> bool \<Rightarrow> GenState \<Rightarrow> (bool \<times> bool, GenState) outcome"
  where
  "expandFromSearchResultRecursively env search searchNode node hist maxDepth st =
     (if maxDepth \<le> 0 then Done False st
      else if searchNode \<in> set (searchNodesRecursedOn st) then Done False st
      else
        (case splicePrologue env search searchNode node hist
                (st\<lparr> searchNodesRecursedOn := searchNode # searchNodesRecursedOn st \<rparr>) of
           Raised e s \<Rightarrow> Raised e s
         | Done None st1 \<Rightarrow> Done False st1
         | Done (Some (bestLoc, cs, policyProbs)) st1 \<Rightarrow>
             (case expandChildren env search node hist maxDepth bestLoc policyProbs cs
                     False False st1 of
                Raised e s \<Rightarrow> Raised e s
              | Done (anyRecursion, anythingAdded) st2 \<Rightarrow>
                  Done anythingAdded (spliceEpilogue node anyRecursion anythingAdded st2))))"
| "expandChildren env search node hist maxDepth bestLoc policyProbs []
       anyRecursion anythingAdded st = Done (anyRecursion, anythingAdded) st"
| "expandChildren env search node hist maxDepth bestLoc policyProbs ((moveLoc, childSearchNode) # rest)
       anyRecursion anythingAdded st =
     (case childRawPolicyAndVisits env search bestLoc policyProbs childSearchNode of
        Inl e \<Rightarrow> Raised e st
      | Inr (rawPolicy, childVisits) \<Rightarrow>
          if moveLoc = bestLoc \<or> childVisits \<ge> minTreeVisitsToRecord env then
            (case recordChild env search node hist moveLoc rawPolicy childSearchNode
                    childVisits st of
               Raised e s \<Rightarrow> Raised e s
             | Done (child, nextHist, added) st1 \<Rightarrow>
                 if maxDepth > 0 \<and> childVisits \<ge> minTreeVisitsToRecord env then
                   (case expandFromSearchResultRecursively env search childSearchNode child
                           nextHist (maxDepth - 1) st1 of
                      Raised e s \<Rightarrow> Raised e s
                    | Done r st2 \<Rightarrow>
                        expandChildren env search node hist maxDepth bestLoc policyProbs rest
                          True (anythingAdded \<or> added) st2)
                 else expandChildren env search node hist maxDepth bestLoc policyProbs rest
                        anyRecursion (anythingAdded \<or> added) st1)
          else expandChildren env search node hist maxDepth bestLoc policyProbs rest
                 anyRecursion anythingAdded st)"
  by pat_completeness auto
termination
  by (relation "inv_image (less_than <*lex*> less_than <*lex*> less_than)
        (\<lambda>x. case x of
           Inl (env, search, searchNode, node, hist, maxDepth, st) \<Rightarrow> (nat maxDepth, Suc 0, 0)
         | Inr (env, search, node, hist, maxDepth, bestLoc, policyProbs, cs, anyRecursion,
                anythingAdded, st) \<Rightarrow> (nat maxDepth, 0, length cs))")
     auto

declare expandFromSearchResultRecursively.simps [simp del]
declare expandChildren.simps [simp del]

subsection \<open>\<^verbatim>\<open>expandNode\<close> (lines 903-1057)\<close>

text \<open>
  The loop of lines 1021-1028: a value refresh for every hash of
  \<^verbatim>\<open>nodesHashesToSearch\<close>, in the order of the set.
\<close>

fun refreshAll :: "Env \<Rightarrow> BookHash list \<Rightarrow> GenState \<Rightarrow> (unit, GenState) outcome" where
  "refreshAll env [] st = Done () st"
| "refreshAll env (h # hs) st =
     (case getByHash (book st) h of
        None \<Rightarrow> Raised NullBookNode st
      | Some nodeToSearch \<Rightarrow>
          (case searchAndUpdateNodeThisValues env nodeToSearch st of
             Raised e s \<Rightarrow> Raised e s
           | Done u st1 \<Rightarrow> refreshAll env hs st1))"

text \<open>
  Lines 1003-1055, after the search: the recursive splice with fresh sets, the two
  assertions, the value refreshes, the nodes handed to \<^verbatim>\<open>book->recompute\<close>,
  \<^verbatim>\<open>canReExpand = false\<close>, and the warning when nothing was added.
\<close>

definition spliceAndRefresh ::
  "Env \<Rightarrow> Search \<Rightarrow> BookHash \<Rightarrow> BoardHistory \<Rightarrow> bool \<Rightarrow> GenState \<Rightarrow> (unit, GenState) outcome" where
  "spliceAndRefresh env search node hist isReExpansion st =
     (case expandFromSearchResultRecursively env search (rootNode search) node hist
             (maxDepthToRecord env)
             (st\<lparr> nodesHashesToSearch := [], nodesHashesToUpdate := [],
                  searchNodesRecursedOn := [] \<rparr>) of
        Raised e s \<Rightarrow> Raised e s
      | Done anythingAdded st1 \<Rightarrow>
          if assertsEnabled env \<and> node \<notin> set (nodesHashesToSearch st1)
          then Raised (AssertionFailed ''nodesHashesToSearch.find(node.hash()) != nodesHashesToSearch.end()'') st1
          else if assertsEnabled env \<and> node \<notin> set (nodesHashesToUpdate st1)
          then Raised (AssertionFailed ''nodesHashesToUpdate.find(node.hash()) != nodesHashesToUpdate.end()'') st1
          else
            (case refreshAll env (nodesHashesToSearch st1) st1 of
               Raised e s \<Rightarrow> Raised e s
             | Done u st2 \<Rightarrow>
                 (case nodes (book st2) node of
                    None \<Rightarrow> Raised NullBookNode st2
                  | Some n \<Rightarrow>
                      let st3 = putNode node (n\<lparr> canReExpand := False \<rparr>)
                                  (st2\<lparr> newAndChangedNodes :=
                                          newAndChangedNodes st2 @
                                          map (getByHash (book st2)) (nodesHashesToUpdate st2) @
                                          [Some node] \<rparr>)
                      in if \<not> anythingAdded \<and> \<not> isReExpansion then
                           Done ()
                             (putNode node (n\<lparr> canReExpand := False, canExpand := False \<rparr>)
                               (logWrite (Log ''Marking node as done so we don't try to expand it again, but something is probably wrong.'')
                                 (logWrite (LogDebugInfo hist)
                                   (logWrite (LogHash ''BookHash of node unable to expand: '' node)
                                     (logWrite (Log ''WARNING: Could not expand since search obtained no new moves, despite earlier checks about legal moves existing not yet in book'') st3)))))
                         else Done () st3)))"

definition bookExploreParams :: "Env \<Rightarrow> SearchParams" where
  "bookExploreParams env =
     (params env)\<lparr> wideRootNoise := wideRootNoiseBookExplore env,
                   cpuctExplorationLog := cpuctExplorationLogBookExplore env \<rparr>"

definition expandNode :: "Env \<Rightarrow> BookHash \<Rightarrow> GenState \<Rightarrow> (unit, GenState) outcome" where
  "expandNode env node st =
     (case nodes (book st) node of
        None \<Rightarrow> Raised NullBookNode st
      | Some n \<Rightarrow>
          (case getBoardHistoryReachingHere env (book st) node of
             (suc, hist, movesToHere) \<Rightarrow>
               if \<not> suc then
                 Done ()
                   (putNode node (n\<lparr> canExpand := False \<rparr>)
                     (logWrite (Log ''Marking node as done so we don't try to expand it again, but something is probably wrong.'')
                       (logWrite (LogMoves movesToHere)
                         (logWrite (Log ''Moves:'')
                           (logWrite (LogHash ''BookHash of node unable to expand: '' node)
                             (logWrite (Log ''or else some hash collision or something else is wrong.'')
                               (logWrite (Log ''WARNING: Failed to get board history reaching node when trying to expand book, probably there is some bug'') st)))))))
               else if bookVersion (book st) \<ge> 2 \<and>
                       getHashAndSymmetry env hist (repBound (book st)) (bookVersion (book st)) \<noteq> node
               then
                 Raised (StringError ''Book failed integrity check'')
                   (logWrite (LogBoardAndMoves hist movesToHere) (logWrite (Log ''Moves:'') st))
               else if isGameFinished hist \<or> isPastNormalPhaseEnd hist
               then Done () (putNode node (n\<lparr> canExpand := False \<rparr>) st)
               else
                 let st1 = logWrite (LogBoardAndMoves hist []) (logWrite (LogHash ''Expanding '' node) st)
                 in case findNewMovesAlreadyLocked env (book st1) hist n True of
                      (foundNewMoves, avoidMoveUntilByLoc, isReExpansion) \<Rightarrow>
                        if \<not> foundNewMoves
                        then Done () (putNode node (n\<lparr> canExpand := False \<rparr>) st1)
                        else
                          (case compensateCpuct env hist (bookExploreParams env)
                                  avoidMoveUntilByLoc of
                             Inl e \<Rightarrow> Raised e st1
                           | Inr thisParams \<Rightarrow>
                               let search = runWholeSearch env thisParams hist (symmetries n)
                                              avoidMoveUntilByLoc
                               in if shouldStopAfterSearch env then Done () st1
                                  else spliceAndRefresh env search node hist isReExpansion
                                         (if logSearchInfo env
                                          then logWrite (Log ''Search result'') st1
                                          else st1))))"

subsection \<open>\<^verbatim>\<open>MainCmds::checkbook\<close> (lines 1234-1328)\<close>

text \<open>\<^verbatim>\<open>testNode\<close> (lines 1270-1312) writes to the log only.\<close>

definition testNode :: "Env \<Rightarrow> Book \<Rightarrow> BookHash \<Rightarrow> LogLine list \<Rightarrow> LogLine list" where
  "testNode env b node lg =
     (case getBoardHistoryReachingHere env b node of
        (suc, hist, movesToHere) \<Rightarrow>
          let lg1 = (if \<not> suc then
                       lg @ [Log ''WARNING: Failed to get board history reaching node, probably there is some bug'',
                             Log ''or else some hash collision or something else is wrong.'',
                             LogHash ''BookHash of node unable to expand: '' node,
                             Log ''Moves:'',
                             LogBoardAndMoves hist movesToHere]
                     else lg)
          in if getHashAndSymmetry env hist (repBound b) (bookVersion b) \<noteq> node
             then lg1 @ [LogHashes ''Book failed integrity check, the node with hash '' node
                           (getHashAndSymmetry env hist (repBound b) (bookVersion b)),
                         Log ''Moves:'',
                         LogBoardAndMoves hist movesToHere]
             else lg1)"

text \<open>
  The loop of lines 1314-1322 over \<^verbatim>\<open>book->getAllNodes()\<close>, and the exit code of
  \<^verbatim>\<open>checkbook\<close> once the book is loaded. The second argument counts the nodes checked.
\<close>

fun checkNodes :: "Env \<Rightarrow> Book \<Rightarrow> BookHash list \<Rightarrow> int \<Rightarrow> LogLine list \<Rightarrow> LogLine list" where
  "checkNodes env b [] numNodesChecked lg = lg"
| "checkNodes env b (node # rest) numNodesChecked lg =
     (let lg1 = testNode env b node lg;
          lg2 = (if (numNodesChecked + 1) mod 10000 = 0
                 then lg1 @ [Log ''Checked nodes''] else lg1)
      in checkNodes env b rest (numNodesChecked + 1) lg2)"

definition checkbook :: "Env \<Rightarrow> Book \<Rightarrow> BookHash list \<Rightarrow> (int, LogLine list) outcome" where
  "checkbook env b allNodes =
     Done 0 (checkNodes env b allNodes 0 [Log ''Checking book...''] @ [Log ''DONE''])"

subsection \<open>Start-up of \<^verbatim>\<open>MainCmds::genbook\<close> (lines 154-376)\<close>

text \<open>
  The command-line values beside those of the loop; an option that was not given is
  the empty string.
\<close>

record GenbookArgs = LoopArgs +
  htmlDir :: string
  bookFile :: string
  traceBookFile :: string
  bonusFile :: string
  allowChangingBookParams :: bool

text \<open>
  A position of the bonus SGF as \<^verbatim>\<open>iterAllUniquePositions\<close> hands it to the callback:
  the history at the start of the game, the moves, and the comments.
\<close>

record SgfPosition =
  sgfInitialHist :: BoardHistory
  sgfMoveHistory :: "(Loc \<times> Player) list"
  comments :: string

text \<open>
  The bonus SGF once loaded: its unique positions in the order of the iteration, its
  board size, the board its placements give (\<open>None\<close> when
  \<^verbatim>\<open>setStonesFailIfNoLibs\<close> fails), and its first player.
\<close>

record Sgf =
  uniquePositions :: "SgfPosition list"
  xySizeX :: int
  xySizeY :: int
  placedBoard :: "nat option"
  firstPlayerColor :: Player

text \<open>
  What start-up takes from outside genbook.cpp: the configuration values it compares
  with a loaded book, the text of the configuration (\<^verbatim>\<open>cfg.getContents()\<close>),
  \<^verbatim>\<open>Book::LATEST_BOOK_VERSION\<close>, the empty board of the configured
  size, the hashing of positions, \<^verbatim>\<open>makeBoardMoveTolerant\<close>, \<^verbatim>\<open>Global::trim\<close> and
  \<^verbatim>\<open>Global::stringToDouble\<close> (\<open>None\<close> when it throws), the loading of an SGF file, the
  constructor of a book, and \<^verbatim>\<open>setBonusByHash\<close> and \<^verbatim>\<open>recomputeEverything\<close>.
\<close>

record StartupEnv =
  cfgBoardSizeX :: int
  cfgBoardSizeY :: int
  cfgRepBound :: int
  cfgRules :: nat
  cfgCostParams :: "double list"
  cfgMaxVisitsForReExpansion :: double
  cfgContents :: string
  LATEST_BOOK_VERSION :: int
  emptyBoard :: nat
  hashAndSymmetry :: "BoardHistory \<Rightarrow> int \<Rightarrow> int \<Rightarrow> BookHash"
  makeBoardMoveTolerant :: "BoardHistory \<Rightarrow> Loc \<Rightarrow> Player \<Rightarrow> BoardHistory option"
  trim :: "string \<Rightarrow> string"
  stringToDouble :: "string \<Rightarrow> double option"
  loadSgf :: "string \<Rightarrow> Sgf option"
  newBook :: "int \<Rightarrow> nat \<Rightarrow> Player \<Rightarrow> Book"
  setBonusByHash :: "(BookHash \<rightharpoonup> double) \<Rightarrow> Book \<Rightarrow> Book"
  recomputeEverything :: "Book \<Rightarrow> Book"

text \<open>
  A file that start-up reads or writes holds a saved book or a text. The state of
  start-up: the files on disk (by file name), the directories made, the book in memory
  once loaded or created, \<^verbatim>\<open>bonusByHash\<close>, and the log. The lines that the logger
  writes, to the log file as well, are the field \<open>startupLog\<close>: the log file is not one
  of the files of \<open>disk\<close>. What the set-up of the neural net reads or writes is outside
  the model.
\<close>

datatype FileContents = BookFile Book | TextFile string

record StartupState =
  disk :: "string \<rightharpoonup> FileContents"
  madeDirs :: "string list"
  theBook :: "Book option"
  bonusByHash :: "BookHash \<rightharpoonup> double"
  startupLog :: "LogLine list"

text \<open>\<^verbatim>\<open>std::string::find\<close>: the index of the first occurrence.\<close>

fun stringFind :: "string \<Rightarrow> string \<Rightarrow> nat option" where
  "stringFind pat [] = (if pat = [] then Some 0 else None)"
| "stringFind pat (c # cs) =
     (if take (length pat) (c # cs) = pat then Some 0
      else map_option Suc (stringFind pat cs))"

text \<open>
  The replay of lines 170-176: \<open>None\<close> when \<^verbatim>\<open>makeBoardMoveTolerant\<close> fails (the
  callback returns without a bonus).
\<close>

fun replayTolerant ::
  "StartupEnv \<Rightarrow> BoardHistory \<Rightarrow> (Loc \<times> Player) list \<Rightarrow> BoardHistory option" where
  "replayTolerant env hist [] = Some hist"
| "replayTolerant env hist ((moveLoc, movePla) # rest) =
     (case makeBoardMoveTolerant env hist moveLoc movePla of
        None \<Rightarrow> None
      | Some hist1 \<Rightarrow> replayTolerant env hist1 rest)"

text \<open>
  The book versions of the loop of line 182:
  \<^verbatim>\<open>for(int bookVersion = 1; bookVersion < Book::LATEST_BOOK_VERSION; bookVersion++)\<close>.
\<close>

definition bonusBookVersions :: "StartupEnv \<Rightarrow> int list" where
  "bonusBookVersions env = [1 .. LATEST_BOOK_VERSION env - 1]"

definition addBonus ::
  "StartupEnv \<Rightarrow> BoardHistory \<Rightarrow> double \<Rightarrow> StartupState \<Rightarrow> int \<Rightarrow> StartupState" where
  "addBonus env hist bonus st bookVersionNow =
     st\<lparr> bonusByHash := (bonusByHash st)(hashAndSymmetry env hist (cfgRepBound env) bookVersionNow \<mapsto> bonus),
         startupLog := startupLog st @
           [LogHash ''Adding bonus to hash '' (hashAndSymmetry env hist (cfgRepBound env) bookVersionNow)] \<rparr>"

text \<open>The callback of lines 167-188 for one position.\<close>

definition bonusCallback ::
  "StartupEnv \<Rightarrow> SgfPosition \<Rightarrow> StartupState \<Rightarrow> (unit, StartupState) outcome" where
  "bonusCallback env pos st =
     (if comments pos = [] then Done () st
      else case stringFind ''BONUS'' (comments pos) of
        None \<Rightarrow> Done () st
      | Some idx \<Rightarrow>
          (case replayTolerant env (sgfInitialHist pos) (sgfMoveHistory pos) of
             None \<Rightarrow> Done () st
           | Some hist \<Rightarrow>
               (case stringToDouble env (trim env (drop (idx + 5) (comments pos))) of
                  None \<Rightarrow> Raised (StringError ''could not parse double'') st
                | Some bonus \<Rightarrow>
                    Done () (foldl (addBonus env hist bonus) st (bonusBookVersions env)))))"

fun bonusCallbacks ::
  "StartupEnv \<Rightarrow> SgfPosition list \<Rightarrow> StartupState \<Rightarrow> (unit, StartupState) outcome" where
  "bonusCallbacks env [] st = Done () st"
| "bonusCallbacks env (pos # rest) st =
     (case bonusCallback env pos st of
        Raised e s \<Rightarrow> Raised e s
      | Done u st1 \<Rightarrow> bonusCallbacks env rest st1)"

text \<open>
  Lines 154-200: the bonus file. The result is \<^verbatim>\<open>bonusInitialBoard\<close> and
  \<^verbatim>\<open>bonusInitialPla\<close>.
\<close>

definition readBonusFile ::
  "StartupEnv \<Rightarrow> string \<Rightarrow> StartupState \<Rightarrow> (nat \<times> Player, StartupState) outcome" where
  "readBonusFile env file st =
     (if file = [] then Done (emptyBoard env, P_BLACK) st
      else case loadSgf env file of
        None \<Rightarrow> Raised (StringError ''could not load sgf'') st
      | Some sgf \<Rightarrow>
          (case bonusCallbacks env (uniquePositions sgf) st of
             Raised e s \<Rightarrow> Raised e s
           | Done u st1 \<Rightarrow>
               if cfgBoardSizeX env \<noteq> xySizeX sgf \<or> cfgBoardSizeY env \<noteq> xySizeY sgf
               then Raised (StringError ''Board size in config does not match the board size of the bonus file'') st1
               else case placedBoard sgf of
                 None \<Rightarrow> Raised (StringError ''Invalid placements in sgf'') st1
               | Some board \<Rightarrow> Done (board, firstPlayerColor sgf) st1))"

text \<open>
  Lines 234-363: the book is loaded from the book file if a file of that name exists
  (\<^verbatim>\<open>FileUtils::tryOpen\<close>), and compared with the configuration; otherwise a new book of
  the latest version is created and saved to the book file, and the text of the
  configuration, with the line end of \<^verbatim>\<open>endl\<close>, is written to the book file's name
  followed by \<^verbatim>\<open>.cfg\<close> (lines 358-362). The cost and bonus parameters that the code
  compares one by one are the list \<^verbatim>\<open>costParams\<close>. \<^verbatim>\<open>Book::loadFromFile\<close> is not among
  the sources: on a file that holds no book it is taken to throw.
\<close>

definition changedParams :: "double list \<Rightarrow> double list \<Rightarrow> LogLine list" where
  "changedParams cfgPs bookPs =
     map (\<lambda>i. LogHash ''Changing book parameter '' i)
       (filter (\<lambda>i. cfgPs ! i \<noteq> bookPs ! i) [0..<length cfgPs])"

definition loadOrCreateBook ::
  "StartupEnv \<Rightarrow> 'a GenbookArgs_scheme \<Rightarrow> nat \<Rightarrow> Player \<Rightarrow> StartupState
     \<Rightarrow> (unit, StartupState) outcome" where
  "loadOrCreateBook env args bonusInitialBoard bonusInitialPla st =
     (case disk st (bookFile args) of
        Some (TextFile t) \<Rightarrow> Raised (StringError ''could not load book'') st
      | Some (BookFile b) \<Rightarrow>
          if cfgBoardSizeX env \<noteq> initialBoardXSize b \<or> cfgBoardSizeY env \<noteq> initialBoardYSize b \<or>
             cfgRepBound env \<noteq> repBound b \<or> cfgRules env \<noteq> initialRules b
          then Raised (StringError ''Book parameters do not match'') st
          else if bonusFile args \<noteq> [] \<and> bonusInitialBoard \<noteq> initialBoard b
          then Raised (StringError ''Book initial board and initial board in bonus sgf file do not match'') st
          else if bonusFile args \<noteq> [] \<and> bonusInitialPla \<noteq> initialPla b
          then Raised (StringError ''Book initial player and initial player in bonus sgf file do not match'') st
          else if \<not> allowChangingBookParams args then
            if cfgCostParams env \<noteq> costParams b \<or>
               cfgMaxVisitsForReExpansion env \<noteq> maxVisitsForReExpansion b
            then Raised (StringError ''Book parameters do not match'') st
            else Done () (st\<lparr> theBook := Some b,
                               startupLog := startupLog st @
                                 [Log ''Loaded preexisting book'', Log ''Book version''] \<rparr>)
          else
            Done () (st\<lparr> theBook := Some (b\<lparr> costParams := cfgCostParams env,
                                maxVisitsForReExpansion := cfgMaxVisitsForReExpansion env \<rparr>),
                         startupLog := startupLog st @
                           changedParams (cfgCostParams env) (costParams b) @
                           (if cfgMaxVisitsForReExpansion env \<noteq> maxVisitsForReExpansion b
                            then [Log ''Changing maxVisitsForReExpansion''] else []) @
                           [Log ''Loaded preexisting book'', Log ''Book version''] \<rparr>)
      | None \<Rightarrow>
          let b = newBook env (LATEST_BOOK_VERSION env) bonusInitialBoard bonusInitialPla
          in Done () (st\<lparr> theBook := Some b,
                            disk := (disk st)
                              (bookFile args \<mapsto> BookFile b,
                               bookFile args @ ''.cfg'' \<mapsto>
                                 TextFile (cfgContents env @ [CHR 0x0A])),
                            startupLog := startupLog st @
                              [Log ''Initializing new book with starting position'',
                               Log ''Creating new book''] \<rparr>))"

text \<open>
  Lines 365-373: the trace book and its check. The result is the trace book, if one was
  given.
\<close>

definition loadTraceBook ::
  "StartupEnv \<Rightarrow> 'a GenbookArgs_scheme \<Rightarrow> StartupState \<Rightarrow> (Book option, StartupState) outcome" where
  "loadTraceBook env args st =
     (if traceBookFile args \<noteq> [] then
        if 0 < sint (numIterations args)
        then Raised (StringError ''Cannot specify iterations and trace book at the same time'') st
        else case disk st (traceBookFile args) of
          Some (BookFile tb) \<Rightarrow>
            Done (Some (recomputeEverything env tb))
              (st\<lparr> startupLog := startupLog st @
                    [Log ''Loaded trace book'', Log ''traceBookMinVisits''] \<rparr>)
        | _ \<Rightarrow> Raised (StringError ''could not load trace book'') st
      else Done None st)"

text \<open>
  Start-up in the order of the code: the bonus file (lines 154-200), the directory of
  \<^verbatim>\<open>--html-dir\<close> (lines 231-232), the book (lines 234-363), the trace book and its check
  (lines 365-373), and the bonuses and the recomputation of the book (lines 375-376).
\<close>

definition genbookStartup ::
  "StartupEnv \<Rightarrow> 'a GenbookArgs_scheme \<Rightarrow> StartupState \<Rightarrow> (Book option, StartupState) outcome" where
  "genbookStartup env args st =
     (case readBonusFile env (bonusFile args) st of
        Raised e s \<Rightarrow> Raised e s
      | Done (bonusInitialBoard, bonusInitialPla) st0 \<Rightarrow>
          let st1 = (if htmlDir args \<noteq> []
                     then st0\<lparr> madeDirs := madeDirs st0 @ [htmlDir args] \<rparr> else st0)
          in case loadOrCreateBook env args bonusInitialBoard bonusInitialPla st1 of
             Raised e s \<Rightarrow> Raised e s
           | Done u st2 \<Rightarrow>
               (case loadTraceBook env args st2 of
                  Raised e s \<Rightarrow> Raised e s
                | Done traceBook st3 \<Rightarrow>
                    Done traceBook
                      (st3\<lparr> theBook := map_option
                               (\<lambda>b. recomputeEverything env (setBonusByHash env (bonusByHash st3) b))
                               (theBook st3) \<rparr>)))"

subsection \<open>Concrete inputs\<close>

text \<open>
  A small world on which the definitions are evaluated: three locs (0, 1, 2), all legal
  in every position; a history is its list of moves; the hash of a position numbers its
  move list in base 4; the full-symmetry policy is 6/10, 3/10, 1/10 for the three locs;
  every search returns the same graph. Node 7 of \<open>exReach\<close> is reached by the moves of
  node 1, so its stored hash is not the hash of its position.
\<close>

definition exHist :: "(Loc \<times> Player) list \<Rightarrow> BoardHistory" where
  "exHist ms =
     \<lparr> moveHistory = ms,
       presumedNextMovePla = (if even (length ms) then P_BLACK else P_WHITE),
       isGameFinished = False, isPastNormalPhaseEnd = False, isNoResult = False,
       winner = C_EMPTY, finalWhiteMinusBlackScore = 0 \<rparr>"

definition exHash :: "BoardHistory \<Rightarrow> BookHash" where
  "exHash hist = foldl (\<lambda>h m. 4 * h + fst m + 1) 0 (moveHistory hist)"

definition exReach :: "Book \<Rightarrow> BookHash \<Rightarrow> bool \<times> BoardHistory \<times> Loc list" where
  "exReach b h =
     (if h = 0 then (True, exHist [], [])
      else if h = 1 then (True, exHist [(0, P_BLACK)], [0])
      else if h = 2 then (True, exHist [(1, P_BLACK)], [1])
      else if h = 3 then (True, exHist [(2, P_BLACK)], [2])
      else if h = 7 then (True, exHist [(0, P_BLACK)], [0])
      else (False, exHist [], []))"

definition exValues :: "double \<Rightarrow> ReportedSearchValues" where
  "exValues x =
     \<lparr> winValue = 1/2, lossValue = 1/2, ReportedSearchValues.winLossValue = x / 10,
       utility = 0, ReportedSearchValues.weight = 20, ReportedSearchValues.visits = 20 \<rparr>"

definition exSearchNode :: "Player \<Rightarrow> (Loc \<times> nat) list \<Rightarrow> int \<Rightarrow> double \<Rightarrow> SearchNode" where
  "exSearchNode p cs v x =
     \<lparr> nextPla = p, children = cs, stats_visits = v, hasNNOutput = True,
       playSelectionValues = (cs \<noteq> [], map fst cs, map (\<lambda>c. 10 - of_nat (fst c)) cs),
       prunedNodeValues = (True, exValues x),
       sharpScore = (True, x / 2),
       shallowAverageShorttermWLAndScoreError = (1/10, 1/5) \<rparr>"

definition exSearch :: Search where
  "exSearch =
     \<lparr> rootNode = 10,
       searchNodes = [10 \<mapsto> exSearchNode P_BLACK [(0, 11), (1, 12)] 20 1,
                      11 \<mapsto> exSearchNode P_WHITE [] 12 2,
                      12 \<mapsto> exSearchNode P_WHITE [] 7 3] \<rparr>"

definition exEnv :: Env where
  "exEnv =
     \<lparr> minTreeVisitsToRecord = 5, maxDepthToRecord = 2, maxVisitsForLeaves = 50,
       params = \<lparr> maxVisits = 100, wideRootNoise = 0, cpuctExploration = 1,
                  cpuctExplorationLog = 1/2 \<rparr>,
       wideRootNoiseBookExplore = 0, cpuctExplorationLogBookExplore = 1/2,
       logSearchInfo = False, assertsEnabled = False, MAX_ARR_SIZE = 3,
       isLegal = (\<lambda>hist loc p. loc < 3),
       makeBoardMoveAssumeLegal = (\<lambda>hist loc p. exHist (moveHistory hist @ [(loc, p)])),
       getHashAndSymmetry = (\<lambda>hist rb v. exHash hist),
       getBoardHistoryReachingHere = exReach,
       getFullSymmetryNNOutput = (\<lambda>hist p. [6/10, 3/10, 1/10]),
       getPos = (\<lambda>loc. loc),
       powDouble = (\<lambda>x y. 1),
       runWholeSearch = (\<lambda>ps hist syms avoid. exSearch),
       shouldStopAfterSearch = False,
       expectedScore = (\<lambda>v. 10 * ReportedSearchValues.winLossValue v),
       expectedScoreStdev = (\<lambda>v. 10 * ReportedSearchValues.winLossValue v + 1) \<rparr>"

definition exNode :: "Player \<Rightarrow> (Loc \<times> BookHash \<times> double) list \<Rightarrow> double \<Rightarrow> BookNode" where
  "exNode p ms v =
     \<lparr> pla = p, symmetries = [0], moves = ms, thisValuesNotInBook = emptyBookValues,
       recursiveValues = \<lparr> visits = v \<rparr>, canExpand = True, canReExpand = True \<rparr>"

definition exBook :: "(BookHash \<rightharpoonup> BookNode) \<Rightarrow> Book" where
  "exBook ns =
     \<lparr> bookVersion = 2, repBound = 5, maxVisitsForReExpansion = 100, nodes = ns,
       initialBoardXSize = 9, initialBoardYSize = 9, initialRules = 0, initialBoard = 0,
       initialPla = P_BLACK, costParams = [] \<rparr>"

definition exState :: "(BookHash \<rightharpoonup> BookNode) \<Rightarrow> GenState" where
  "exState ns =
     \<lparr> book = exBook ns, logLines = [], nodesHashesToSearch = [], nodesHashesToUpdate = [],
       searchNodesRecursedOn = [], newAndChangedNodes = [] \<rparr>"

lemmas ex_defs = exHist_def exHash_def exReach_def exValues_def exSearchNode_def exSearch_def
  exEnv_def exNode_def exBook_def exState_def

lemmas splice_defs = expandFromSearchResultRecursively.simps expandChildren.simps
  splicePrologue_def findBestIdx_def childRawPolicyAndVisits_def recordChild_def
  recordChildInBook_def recordChildNew_def playAndAddMove_def isMoveInBook_def follow_def
  numUniqueMovesInBook_def setNodeThisValuesFromFinishedSearch_def finishedSearchValues_def
  maskAvoidedPolicy_def getMaxPolicy_def putNode_def logWrite_def setInsert_def
  spliceEpilogue_def thenReturn_def illegalMoveWarning_def emptyBookValues_def

text \<open>
  A search graph with a transposition and a cycle: the nodes 11 and 12 share the child
  13, whose child is the root 10 again.
\<close>

definition exSearchShared :: Search where
  "exSearchShared =
     \<lparr> rootNode = 10,
       searchNodes = [10 \<mapsto> exSearchNode P_BLACK [(0, 11), (1, 12)] 20 1,
                      11 \<mapsto> exSearchNode P_WHITE [(1, 13)] 12 2,
                      12 \<mapsto> exSearchNode P_WHITE [(0, 13)] 7 3,
                      13 \<mapsto> exSearchNode P_BLACK [(2, 10)] 6 4] \<rparr>"

text \<open>
  Books for the evaluations below. In \<open>exFullBook\<close> every legal move of the root is in
  the book and the root may be re-expanded. In \<open>exTransBook\<close> the position after move 0
  is in the book already, with one move of its own and one recursive visit; in
  \<open>exLeafBook\<close> it is there without moves.
\<close>

definition exFullBook :: "BookHash \<rightharpoonup> BookNode" where
  "exFullBook =
     [0 \<mapsto> exNode P_BLACK [(0, 1, 6/10), (1, 2, 3/10), (2, 3, 1/10)] 1,
      1 \<mapsto> exNode P_WHITE [] 0,
      2 \<mapsto> exNode P_WHITE [] 0,
      3 \<mapsto> exNode P_WHITE [] 0]"

definition exTransBook :: "BookHash \<rightharpoonup> BookNode" where
  "exTransBook = [0 \<mapsto> exNode P_BLACK [] 0, 1 \<mapsto> exNode P_WHITE [(2, 7, 1/10)] 1]"

definition exLeafBook :: "BookHash \<rightharpoonup> BookNode" where
  "exLeafBook = [0 \<mapsto> exNode P_BLACK [] 0, 1 \<mapsto> exNode P_WHITE [] 1]"


definition exBadBook :: "BookHash \<rightharpoonup> BookNode" where
  "exBadBook = [0 \<mapsto> exNode P_BLACK [(0, 7, 6/10)] 1, 7 \<mapsto> exNode P_WHITE [] 0]"

text \<open>
  Start-up: two book versions, so the hashing rule of version 1 and that of version 2,
  the latest, which give different hashes; a bonus SGF with two positions, the second
  commented with a bonus of 1; a disk that holds a trace book and no book file; and
  arguments that give the trace book and one iteration.
\<close>

definition exNewBook :: "int \<Rightarrow> nat \<Rightarrow> Player \<Rightarrow> Book" where
  "exNewBook v board p =
     \<lparr> bookVersion = v, repBound = 5, maxVisitsForReExpansion = 100,
       nodes = [0 \<mapsto> exNode p [] 0],
       initialBoardXSize = 9, initialBoardYSize = 9, initialRules = 0, initialBoard = board,
       initialPla = p, costParams = [1/100, 1] \<rparr>"

definition exSgf :: Sgf where
  "exSgf =
     \<lparr> uniquePositions =
         [\<lparr> sgfInitialHist = exHist [], sgfMoveHistory = [], comments = '''' \<rparr>,
          \<lparr> sgfInitialHist = exHist [], sgfMoveHistory = [(0, P_BLACK)],
            comments = ''good for black BONUS 1.0'' \<rparr>],
       xySizeX = 9, xySizeY = 9, placedBoard = Some 0, firstPlayerColor = P_BLACK \<rparr>"

definition exStartupEnv :: StartupEnv where
  "exStartupEnv =
     \<lparr> cfgBoardSizeX = 9, cfgBoardSizeY = 9, cfgRepBound = 5, cfgRules = 0,
       cfgCostParams = [1/100, 1], cfgMaxVisitsForReExpansion = 100,
       cfgContents = ''numGameThreads = 1'',
       LATEST_BOOK_VERSION = 2, emptyBoard = 0,
       hashAndSymmetry = (\<lambda>hist rb v. 100 * nat v + exHash hist),
       makeBoardMoveTolerant = (\<lambda>hist loc p. Some (exHist (moveHistory hist @ [(loc, p)]))),
       trim = dropWhile (\<lambda>c. c = CHR '' ''),
       stringToDouble = (\<lambda>s. if s = ''1.0'' then Some 1 else None),
       loadSgf = (\<lambda>f. if f = ''bonus.sgf'' then Some exSgf else None),
       newBook = exNewBook,
       setBonusByHash = (\<lambda>m b. b),
       recomputeEverything = (\<lambda>b. b) \<rparr>"

definition exStartupState :: StartupState where
  "exStartupState =
     \<lparr> disk = [''trace.book'' \<mapsto> BookFile (exNewBook 2 0 P_BLACK)], madeDirs = [],
       theBook = None, bonusByHash = Map.empty, startupLog = [] \<rparr>"

definition exArgs :: "unit GenbookArgs_scheme" where
  "exArgs =
     \<lparr> numIterations = 1, saveEveryIterations = 1, numToExpandPerIteration = 1,
       shouldStopAtTop = (\<lambda>i. False), shouldStopAtBottom = (\<lambda>i. False),
       htmlDir = ''html'', bookFile = ''new.book'', traceBookFile = ''trace.book'', bonusFile = '''',
       allowChangingBookParams = False \<rparr>"

subsection \<open>Results on the expansion loop\<close>

lemma outcomeState_simps [simp]:
  "outcomeState (Raised e s) = s"
  "outcomeState (Done x s) = s"
  by (simp_all add: outcomeState_def)

lemma sint_numToExpand:
  fixes i n :: int32
  assumes "0 \<le> sint i"
  shows "sint (numToExpand i n) = min (1 + sint i div 2) (sint n)"
proof -
  have hi: "sint i < 2 ^ 31" using sint_lt [of i] by simp
  have e: "sint i sdiv 2 = sint i div 2"
    using assms by (simp add: signed_divide_int_def sgn_if)
  have h: "signed_take_bit 31 (sint i div 2) = sint i div 2"
    using assms hi by (intro signed_take_bit_int_eq_self) auto
  have "sint (1 + cppHalf i) = signed_take_bit 31 (1 + sint i div 2)"
    by (simp add: cppHalf_def e sint_word_add sint_sbintrunc' h)
  also have "\<dots> = 1 + sint i div 2"
    using assms hi by (intro signed_take_bit_int_eq_self) auto
  finally have "sint (1 + cppHalf i) = 1 + sint i div 2" .
  then show ?thesis
    by (simp add: numToExpand_def stdMin_def min_def)
qed

lemma selectorRequests_append [simp]:
  "selectorRequests (a @ b) = selectorRequests a @ selectorRequests b"
  by (simp add: selectorRequests_def)

lemma selectorRequests_simps [simp]:
  "selectorRequests [] = []"
  "selectorRequests [SaveToFile] = []"
  "selectorRequests [GetNextNToExpand n] = [sint n]"
  by (simp_all add: selectorRequests_def)

text \<open>
  From iteration \<open>iteration\<close> on, the loop appends one request per iteration it runs, and
  the request of the \<open>j\<close>-th of them is \<open>min (1 + (iteration + j) div 2)\<close> of the
  configured value. The outcome may be a normal end, a stop, or an error.
\<close>

lemma expansionLoop_requests:
  "0 \<le> sint iteration \<Longrightarrow>
   \<exists>k. selectorRequests (outcomeState (expansionLoop args iteration tr)) =
     selectorRequests tr @
     map (\<lambda>j. min (1 + (sint iteration + int j) div 2) (sint (numToExpandPerIteration args))) [0..<k]"
proof (induction args iteration tr rule: expansionLoop.induct)
  case (1 args iteration tr)
  show ?case
  proof (cases "sint iteration < sint (numIterations args) \<and> \<not> shouldStopAtTop args iteration")
    case False
    then have "outcomeState (expansionLoop args iteration tr) = tr"
      by (auto simp: outcomeState_def expansionLoop.simps [of args iteration tr])
    then show ?thesis by (intro exI [of _ 0]) simp
  next
    case True
    show ?thesis
    proof (cases "cppMod iteration (saveEveryIterations args)")
      case (Inl e)
      with True have "outcomeState (expansionLoop args iteration tr) = tr"
        by (simp add: outcomeState_def expansionLoop.simps [of args iteration tr])
      then show ?thesis by (intro exI [of _ 0]) simp
    next
      case (Inr r)
      define tr1 where "tr1 = (if r = 0 \<and> iteration \<noteq> 0 then tr @ [SaveToFile] else tr)"
      define tr2 where
        "tr2 = tr1 @ [GetNextNToExpand (numToExpand iteration (numToExpandPerIteration args))]"
      have req2: "selectorRequests tr2 = selectorRequests tr @
          [min (1 + sint iteration div 2) (sint (numToExpandPerIteration args))]"
        using "1.prems" by (simp add: tr2_def tr1_def sint_numToExpand)
      show ?thesis
      proof (cases "shouldStopAtBottom args iteration")
        case stop: True
        with True Inr have "outcomeState (expansionLoop args iteration tr) = tr2"
          by (simp add: outcomeState_def tr2_def tr1_def Let_def
                expansionLoop.simps [of args iteration tr])
        then show ?thesis using req2 by (intro exI [of _ 1]) simp
      next
        case cont: False
        with True Inr have unf:
          "expansionLoop args iteration tr = expansionLoop args (iteration + 1) tr2"
          by (simp add: tr2_def tr1_def Let_def expansionLoop.simps [of args iteration tr])
        have s1: "sint (iteration + 1) = sint iteration + 1"
          using True sint_succ_below by blast
        have pos: "0 \<le> sint (iteration + 1)" using s1 "1.prems" by simp
        from True have c1: "sint iteration < sint (numIterations args)"
          and c2: "\<not> shouldStopAtTop args iteration" by simp_all
        from "1.IH" [OF c1 c2 Inr refl refl cont pos]
        obtain k where k:
          "selectorRequests (outcomeState (expansionLoop args (iteration + 1) tr2)) =
            selectorRequests tr2 @
            map (\<lambda>j. min (1 + (sint (iteration + 1) + int j) div 2)
                   (sint (numToExpandPerIteration args))) [0..<k]"
          unfolding tr2_def tr1_def by blast
        have shift: "map (\<lambda>j. min (1 + (sint iteration + int j) div 2)
                   (sint (numToExpandPerIteration args))) [0..<Suc k] =
            min (1 + sint iteration div 2) (sint (numToExpandPerIteration args)) #
            map (\<lambda>j. min (1 + (sint (iteration + 1) + int j) div 2)
                   (sint (numToExpandPerIteration args))) [0..<k]"
          by (simp add: upt_conv_Cons map_Suc_upt [symmetric] s1 add.assoc del: upt_Suc)
        show ?thesis
          by (rule exI [of _ "Suc k"])
             (simp only: unf k req2 shift append_Cons append_Nil append_assoc)
      qed
    qed
  qed
qed

text \<open>
  The number of requests. A run that is never stopped and whose \<^verbatim>\<open>--save-every\<close> is
  not zero asks the Selector once in each of its \<^verbatim>\<open>numIterations\<close> iterations; and
  whenever iteration \<open>i\<close> is reached and not stopped at its top, the run has asked the
  Selector more than \<open>i\<close> times.
\<close>

lemma cppMod_Inr:
  fixes a b :: int32
  assumes "b \<noteq> 0" and "0 \<le> sint a"
  shows "\<exists>r. cppMod a b = Inr r"
  using assms by (simp add: cppMod_def)

lemma expansionLoop_count:
  assumes "saveEveryIterations args \<noteq> 0" and "0 \<le> sint iteration"
      and "\<forall>j. \<not> shouldStopAtTop args j \<and> \<not> shouldStopAtBottom args j"
  shows "length (selectorRequests (outcomeState (expansionLoop args iteration tr))) =
         length (selectorRequests tr) + nat (sint (numIterations args) - sint iteration)"
  using assms
proof (induction args iteration tr rule: expansionLoop.induct)
  case (1 args iteration tr)
  show ?case
  proof (cases "sint iteration < sint (numIterations args)")
    case False
    then show ?thesis
      by (simp add: expansionLoop.simps [of args iteration tr])
  next
    case True
    from cppMod_Inr [OF "1.prems"(1,2)] obtain r where
      r: "cppMod iteration (saveEveryIterations args) = Inr r" by blast
    define tr1 where "tr1 = (if r = 0 \<and> iteration \<noteq> 0 then tr @ [SaveToFile] else tr)"
    define tr2 where
      "tr2 = tr1 @ [GetNextNToExpand (numToExpand iteration (numToExpandPerIteration args))]"
    have len2: "length (selectorRequests tr2) = Suc (length (selectorRequests tr))"
      by (simp add: tr2_def tr1_def)
    have top: "\<not> shouldStopAtTop args iteration" and bot: "\<not> shouldStopAtBottom args iteration"
      using "1.prems"(3) by simp_all
    have unf: "expansionLoop args iteration tr = expansionLoop args (iteration + 1) tr2"
      using True top bot r
      by (simp add: tr2_def tr1_def Let_def expansionLoop.simps [of args iteration tr])
    have s1: "sint (iteration + 1) = sint iteration + 1"
      using True sint_succ_below by blast
    have pos: "0 \<le> sint (iteration + 1)" using s1 "1.prems"(2) by simp
    from "1.IH" [OF True top r refl refl bot "1.prems"(1) pos "1.prems"(3)]
    have "length (selectorRequests (outcomeState (expansionLoop args (iteration + 1) tr2))) =
          length (selectorRequests tr2) + nat (sint (numIterations args) - sint (iteration + 1))"
      unfolding tr2_def tr1_def .
    then show ?thesis using True by (simp add: unf len2 s1)
  qed
qed

lemma expansionLoop_reaches:
  assumes "saveEveryIterations args \<noteq> 0" and "0 \<le> sint iteration"
      and "sint iteration \<le> sint i" and "sint i < sint (numIterations args)"
      and "\<forall>j. sint iteration \<le> sint j \<and> sint j < sint i \<longrightarrow>
                \<not> shouldStopAtTop args j \<and> \<not> shouldStopAtBottom args j"
      and "\<not> shouldStopAtTop args i"
  shows "length (selectorRequests tr) + nat (sint i - sint iteration) <
         length (selectorRequests (outcomeState (expansionLoop args iteration tr)))"
  using assms
proof (induction args iteration tr rule: expansionLoop.induct)
  case (1 args iteration tr)
  have below: "sint iteration < sint (numIterations args)"
    using "1.prems"(3,4) by simp
  from cppMod_Inr [OF "1.prems"(1,2)] obtain r where
    r: "cppMod iteration (saveEveryIterations args) = Inr r" by blast
  define tr1 where "tr1 = (if r = 0 \<and> iteration \<noteq> 0 then tr @ [SaveToFile] else tr)"
  define tr2 where
    "tr2 = tr1 @ [GetNextNToExpand (numToExpand iteration (numToExpandPerIteration args))]"
  have len2: "length (selectorRequests tr2) = Suc (length (selectorRequests tr))"
    by (simp add: tr2_def tr1_def)
  have s1: "sint (iteration + 1) = sint iteration + 1"
    using below sint_succ_below by blast
  have pos: "0 \<le> sint (iteration + 1)" using s1 "1.prems"(2) by simp
  show ?case
  proof (cases "sint iteration = sint i")
    case True
    then have eq: "iteration = i" by (rule signed_word_eqI)
    have top: "\<not> shouldStopAtTop args iteration" using "1.prems"(6) eq by simp
    have "length (selectorRequests tr2) \<le>
          length (selectorRequests (outcomeState (expansionLoop args iteration tr)))"
    proof (cases "shouldStopAtBottom args iteration")
      case stop: True
      with below top r have "outcomeState (expansionLoop args iteration tr) = tr2"
        by (simp add: tr2_def tr1_def Let_def expansionLoop.simps [of args iteration tr])
      then show ?thesis by simp
    next
      case cont: False
      with below top r have unf:
        "expansionLoop args iteration tr = expansionLoop args (iteration + 1) tr2"
        by (simp add: tr2_def tr1_def Let_def expansionLoop.simps [of args iteration tr])
      from expansionLoop_requests [OF pos, of args tr2] obtain k where
        "selectorRequests (outcomeState (expansionLoop args (iteration + 1) tr2)) =
           selectorRequests tr2 @
           map (\<lambda>j. min (1 + (sint (iteration + 1) + int j) div 2)
                  (sint (numToExpandPerIteration args))) [0..<k]"
        by blast
      then show ?thesis by (simp add: unf)
    qed
    then show ?thesis using True by (simp add: len2)
  next
    case False
    then have lt: "sint iteration < sint i" using "1.prems"(3) by simp
    have top: "\<not> shouldStopAtTop args iteration" and bot: "\<not> shouldStopAtBottom args iteration"
      using "1.prems"(5) lt by simp_all
    have unf: "expansionLoop args iteration tr = expansionLoop args (iteration + 1) tr2"
      using below top bot r
      by (simp add: tr2_def tr1_def Let_def expansionLoop.simps [of args iteration tr])
    have le: "sint (iteration + 1) \<le> sint i" using s1 lt by simp
    have rest: "\<forall>j. sint (iteration + 1) \<le> sint j \<and> sint j < sint i \<longrightarrow>
                \<not> shouldStopAtTop args j \<and> \<not> shouldStopAtBottom args j"
      using "1.prems"(5) s1 by simp
    from "1.IH" [OF below top r refl refl bot "1.prems"(1) pos le "1.prems"(4) rest "1.prems"(6)]
    have "length (selectorRequests tr2) + nat (sint i - sint (iteration + 1)) <
          length (selectorRequests (outcomeState (expansionLoop args (iteration + 1) tr2)))"
      unfolding tr2_def tr1_def .
    then show ?thesis using lt by (simp add: unf len2 s1)
  qed
qed

text \<open>
  C7. In every run of the expansion loop, started as the code starts it (iteration 0),
  the requests to the Selector are, in order, \<open>min (1 + i div 2) numToExpandPerIteration\<close>
  for \<open>i = 0, 1, 2, ...\<close>, where the loop computes the value on 32-bit integers with the
  truncating division of C++; this holds for the requests of every outcome: a run to the
  end, a stop, or an error. Every iteration \<open>i\<close> that the loop enters (\<open>i\<close> is below
  \<^verbatim>\<open>numIterations\<close>, the divisor of the save check is not zero, no earlier iteration was
  stopped, and \<^verbatim>\<open>shouldStop\<close> is not set at its top) makes the request number \<open>i\<close>, for
  exactly \<open>min (1 + i div 2) numToExpandPerIteration\<close> nodes. A run that is never stopped
  makes exactly \<^verbatim>\<open>numIterations\<close> requests.
\<close>

theorem numToExpand_ramp:
  "selectorRequests (outcomeState (expansionLoop args 0 [])) =
     map (\<lambda>i. min (1 + int i div 2) (sint (numToExpandPerIteration args)))
       [0..<length (selectorRequests (outcomeState (expansionLoop args 0 [])))] \<and>
   (saveEveryIterations args \<noteq> 0 \<and> 0 \<le> sint i \<and> sint i < sint (numIterations args) \<and>
    (\<forall>j. 0 \<le> sint j \<and> sint j < sint i \<longrightarrow>
          \<not> shouldStopAtTop args j \<and> \<not> shouldStopAtBottom args j) \<and>
    \<not> shouldStopAtTop args i \<longrightarrow>
      nat (sint i) < length (selectorRequests (outcomeState (expansionLoop args 0 []))) \<and>
      selectorRequests (outcomeState (expansionLoop args 0 [])) ! nat (sint i) =
        min (1 + sint i div 2) (sint (numToExpandPerIteration args))) \<and>
   (saveEveryIterations args \<noteq> 0 \<and>
    (\<forall>j. \<not> shouldStopAtTop args j \<and> \<not> shouldStopAtBottom args j) \<longrightarrow>
      length (selectorRequests (outcomeState (expansionLoop args 0 []))) =
        nat (sint (numIterations args)))"
proof (intro conjI impI)
  from expansionLoop_requests [of 0 args "[]"]
  obtain k where k: "selectorRequests (outcomeState (expansionLoop args 0 [])) =
     map (\<lambda>j. min (1 + int j div 2) (sint (numToExpandPerIteration args))) [0..<k]"
    by auto
  have "length (selectorRequests (outcomeState (expansionLoop args 0 []))) = k"
    by (simp add: k)
  with k show shape: "selectorRequests (outcomeState (expansionLoop args 0 [])) =
     map (\<lambda>i. min (1 + int i div 2) (sint (numToExpandPerIteration args)))
       [0..<length (selectorRequests (outcomeState (expansionLoop args 0 [])))]"
    by simp
  {
    assume h: "saveEveryIterations args \<noteq> 0 \<and> 0 \<le> sint i \<and> sint i < sint (numIterations args) \<and>
      (\<forall>j. 0 \<le> sint j \<and> sint j < sint i \<longrightarrow>
            \<not> shouldStopAtTop args j \<and> \<not> shouldStopAtBottom args j) \<and>
      \<not> shouldStopAtTop args i"
    then have "length (selectorRequests []) + nat (sint i - sint (0::int32)) <
        length (selectorRequests (outcomeState (expansionLoop args 0 [])))"
      by (intro expansionLoop_reaches) simp_all
    then show lt: "nat (sint i) < length (selectorRequests (outcomeState (expansionLoop args 0 [])))"
      by simp
    have "selectorRequests (outcomeState (expansionLoop args 0 [])) ! nat (sint i) =
        map (\<lambda>i. min (1 + int i div 2) (sint (numToExpandPerIteration args)))
          [0..<length (selectorRequests (outcomeState (expansionLoop args 0 [])))] ! nat (sint i)"
      using shape by simp
    also have "\<dots> = min (1 + int (nat (sint i)) div 2) (sint (numToExpandPerIteration args))"
      using lt by simp
    finally show "selectorRequests (outcomeState (expansionLoop args 0 [])) ! nat (sint i) =
        min (1 + sint i div 2) (sint (numToExpandPerIteration args))"
      using h by simp
  }
  {
    assume h: "saveEveryIterations args \<noteq> 0 \<and>
      (\<forall>j. \<not> shouldStopAtTop args j \<and> \<not> shouldStopAtBottom args j)"
    then have "length (selectorRequests (outcomeState (expansionLoop args 0 []))) =
        length (selectorRequests []) + nat (sint (numIterations args) - sint (0::int32))"
      by (intro expansionLoop_count) simp_all
    then show "length (selectorRequests (outcomeState (expansionLoop args 0 []))) =
        nat (sint (numIterations args))"
      by simp
  }
qed

theorem numToExpand_ramp_witness:
  "nat (sint (3::int32)) <
     length (selectorRequests (outcomeState (expansionLoop
       \<lparr> numIterations = 5, saveEveryIterations = 2, numToExpandPerIteration = 2,
         shouldStopAtTop = (\<lambda>i. False), shouldStopAtBottom = (\<lambda>i. False) \<rparr> 0 []))) \<and>
   selectorRequests (outcomeState (expansionLoop
       \<lparr> numIterations = 5, saveEveryIterations = 2, numToExpandPerIteration = 2,
         shouldStopAtTop = (\<lambda>i. False), shouldStopAtBottom = (\<lambda>i. False) \<rparr> 0 [])) ! 3 = 2 \<and>
   length (selectorRequests (outcomeState (expansionLoop
       \<lparr> numIterations = 5, saveEveryIterations = 2, numToExpandPerIteration = 2,
         shouldStopAtTop = (\<lambda>i. False), shouldStopAtBottom = (\<lambda>i. False) \<rparr> 0 []))) = 5"
  using numToExpand_ramp [where i = 3 and args =
       "\<lparr> numIterations = 5, saveEveryIterations = 2, numToExpandPerIteration = 2,
         shouldStopAtTop = (\<lambda>i. False), shouldStopAtBottom = (\<lambda>i. False) \<rparr>"]
  by simp

text \<open>
  A run of five iterations with \<^verbatim>\<open>numToExpandPerIteration = 2\<close> and a save every two
  iterations: the requests are 1, 1, 2, 2, 2 and the book is saved before iterations 2
  and 4.
\<close>

lemma expansionLoop_five_iterations:
  "expansionLoop \<lparr> numIterations = 5, saveEveryIterations = 2, numToExpandPerIteration = 2,
      shouldStopAtTop = (\<lambda>i. False), shouldStopAtBottom = (\<lambda>i. False) \<rparr> 0 [] =
   Done () [GetNextNToExpand 1, GetNextNToExpand 1, SaveToFile, GetNextNToExpand 2,
            GetNextNToExpand 2, SaveToFile, GetNextNToExpand 2]"
  by (simp add: expansionLoop.simps cppMod_def numToExpand_def stdMin_def cppHalf_def
        Let_def signed_modulo_int_def signed_divide_int_def)

text \<open>
  C10. The save-cadence check \<^verbatim>\<open>iteration % saveEveryIterations == 0 && iteration != 0\<close>
  evaluates the remainder first, already in iteration 0. The command line accepts
  \<^verbatim>\<open>--save-every 0\<close>; with it and two iterations the first evaluation divides by zero,
  before any request to the Selector.
\<close>

theorem save_every_zero_divides_by_zero:
  "expansionLoop \<lparr> numIterations = 2, saveEveryIterations = 0, numToExpandPerIteration = 1,
      shouldStopAtTop = (\<lambda>i. False), shouldStopAtBottom = (\<lambda>i. False) \<rparr> 0 [] =
   Raised DivisionByZero []"
  by (simp add: expansionLoop.simps cppMod_def)

subsection \<open>Results on the recursive splice: termination\<close>

lemma recursedOn_logWrite [simp]:
  "searchNodesRecursedOn (logWrite l st) = searchNodesRecursedOn st"
  by (simp add: logWrite_def)

lemma recursedOn_putNode [simp]:
  "searchNodesRecursedOn (putNode h n st) = searchNodesRecursedOn st"
  by (simp add: putNode_def)

lemma recursedOn_illegalMoveWarning [simp]:
  "searchNodesRecursedOn (illegalMoveWarning node n hist moveLoc st) = searchNodesRecursedOn st"
  by (simp add: illegalMoveWarning_def)

lemma recursedOn_spliceEpilogue [simp]:
  "searchNodesRecursedOn (spliceEpilogue node a b st) = searchNodesRecursedOn st"
  by (simp add: spliceEpilogue_def Let_def)

lemma outcomeState_thenReturn [simp]:
  "outcomeState (thenReturn x r) = outcomeState x"
  by (cases x) (simp_all add: thenReturn_def)


lemma recursedOn_setNodeThisValuesFromFinishedSearch [simp]:
  "searchNodesRecursedOn
     (outcomeState (setNodeThisValuesFromFinishedSearch env search node sn hist avoid st)) =
   searchNodesRecursedOn st"
  unfolding setNodeThisValuesFromFinishedSearch_def
  by (simp split: option.split sum.split)












text \<open>
  The run of the witness: of the cyclic graph, each of the four search nodes is recursed
  on once, and the splice adds edges.
\<close>

lemma ex_shared_run:
  "searchNodesRecursedOn (outcomeState
     (expandFromSearchResultRecursively exEnv exSearchShared 10 0 (exHist []) 5
        (exState [0 \<mapsto> exNode P_BLACK [] 0]))) = [12, 13, 11, 10]"
  by (simp add: ex_defs exSearchShared_def splice_defs Let_def)

lemma ex_shared_run_done:
  "\<exists>st. expandFromSearchResultRecursively exEnv exSearchShared 10 0 (exHist []) 5
        (exState [0 \<mapsto> exNode P_BLACK [] 0]) = Done True st"
  by (simp add: ex_defs exSearchShared_def splice_defs Let_def)

subsection \<open>Results on the recursive splice: what is written to the book\<close>

lemmas node_defs = expandNode_def spliceAndRefresh_def refreshAll.simps getByHash_def
  searchAndUpdateNodeThisValues_def findNewMovesAlreadyLocked_def compensateCpuct_def
  policySumNotAvoided_def bookExploreParams_def leafSearchParams_def
  setNodeThisValuesNoMoves_def setNodeThisValuesTerminal_def

lemma upt3: "[0..<3] = [0, 1, 2]"
  by (simp add: upt_rec)

text \<open>
  C3. The raw policy stored on an edge added by the splice is read at the position of
  \<^verbatim>\<open>bestLoc\<close> (line 810), for every child. On the root of an empty book, the search
  \<open>exSearch\<close> records move 0 (the best move, policy 6/10) and move 1 (enough visits,
  policy 3/10): both new edges store 6/10, so the edge of move 1 does not hold the
  full-symmetry policy of its own move.
\<close>

theorem raw_policy_of_added_child_is_best_moves:
  "map_option moves (nodes (book (outcomeState
      (expandFromSearchResultRecursively exEnv exSearch 10 0 (exHist []) 1
         (exState [0 \<mapsto> exNode P_BLACK [] 0])))) 0) =
     Some [(0, 1, 6/10), (1, 2, 6/10)] \<and>
   getFullSymmetryNNOutput exEnv (exHist []) P_BLACK ! getPos exEnv 1 = 3/10"
  by (simp add: ex_defs splice_defs Let_def)

lemma book_illegalMoveWarning_other:
  "child \<noteq> node \<Longrightarrow>
   nodes (book (illegalMoveWarning node n hist moveLoc st)) child = nodes (book st) child"
  by (simp add: illegalMoveWarning_def putNode_def logWrite_def)

lemma setNodeThisValuesFromFinishedSearch_Done:
  assumes "setNodeThisValuesFromFinishedSearch env search child csn hist [] st = Done u st'"
      and "searchNodes search csn = Some sn"
      and "nodes (book st) child = Some c"
  shows "map_option thisValuesNotInBook (nodes (book st') child) =
           Some (finishedSearchValues env sn (getMaxPolicy (getFullSymmetryNNOutput env hist (pla c))))"
  using assms
  by (auto simp: setNodeThisValuesFromFinishedSearch_def maskAvoidedPolicy_def putNode_def
           split: if_splits)

lemma thenReturn_Done:
  "thenReturn x r = Done r' s \<Longrightarrow> \<exists>u. x = Done u s \<and> r' = r"
  by (cases x) (simp_all add: thenReturn_def)

lemma recordChildInBook_values:
  assumes ret: "recordChildInBook env search node n hist moveLoc csn childVisits st =
                   Done (child, nextHist, added) st'"
      and sn: "searchNodes search csn = Some sn"
      and other: "child \<noteq> node"
  shows "\<exists>c. nodes (book st) child = Some c \<and>
           map_option thisValuesNotInBook (nodes (book st') child) =
             Some (if numUniqueMovesInBook c = 0 \<and>
                      RecursiveBookValues.visits (recursiveValues c) < of_int childVisits
                   then finishedSearchValues env sn
                          (getMaxPolicy (getFullSymmetryNNOutput env nextHist (pla c)))
                   else thisValuesNotInBook c)"
proof -
  from ret obtain ch where f: "follow n moveLoc = Some ch"
    by (auto simp: recordChildInBook_def split: option.splits)
  define st1 where "st1 = (if \<not> isLegal env hist moveLoc (pla n)
                     then illegalMoveWarning node n hist moveLoc st else st)"
  define nh where "nh = makeBoardMoveAssumeLegal env hist moveLoc (pla n)"
  from ret f obtain c where c1: "nodes (book st1) ch = Some c"
    by (auto simp: recordChildInBook_def Let_def st1_def split: option.splits)
  have unf: "recordChildInBook env search node n hist moveLoc csn childVisits st =
    (if numUniqueMovesInBook c = 0 \<and>
         RecursiveBookValues.visits (recursiveValues c) < of_int childVisits
      then thenReturn (setNodeThisValuesFromFinishedSearch env search ch csn nh [] st1)
             (ch, nh, False)
      else Done (ch, nh, False) st1)"
    unfolding recordChildInBook_def Let_def st1_def nh_def
    using f c1 [unfolded st1_def] by simp
  with ret have res:
    "(if numUniqueMovesInBook c = 0 \<and>
         RecursiveBookValues.visits (recursiveValues c) < of_int childVisits
      then thenReturn (setNodeThisValuesFromFinishedSearch env search ch csn nh [] st1)
             (ch, nh, False)
      else Done (ch, nh, False) st1) = Done (child, nextHist, added) st'"
    by simp
  show ?thesis
  proof (cases "numUniqueMovesInBook c = 0 \<and>
         RecursiveBookValues.visits (recursiveValues c) < of_int childVisits")
    case True
    with res obtain u where w: "setNodeThisValuesFromFinishedSearch env search ch csn nh [] st1 = Done u st'"
      and eq: "(child, nextHist, added) = (ch, nh, False)"
      by (auto dest: thenReturn_Done)
    from eq have "child = ch" "nextHist = nh" by simp_all
    moreover have "nodes (book st) ch = Some c"
      using c1 other \<open>child = ch\<close> by (simp add: st1_def book_illegalMoveWarning_other split: if_splits)
    moreover note setNodeThisValuesFromFinishedSearch_Done [OF w sn c1]
    ultimately show ?thesis using True by simp
  next
    case False
    with res have eq: "child = ch" "nextHist = nh" "st' = st1" by simp_all
    have "nodes (book st) ch = Some c"
      using c1 other eq by (simp add: st1_def book_illegalMoveWarning_other split: if_splits)
    with False eq c1 show ?thesis by auto
  qed
qed


lemma recordChildNew_values:
  assumes ret: "recordChildNew env search node n hist moveLoc rawPolicy csn childVisits st =
                   Done (child, nextHist, added) st'"
      and sn: "searchNodes search csn = Some sn"
      and other: "child \<noteq> node"
      and notin: "\<not> isMoveInBook n moveLoc"
  shows "map_option thisValuesNotInBook (nodes (book st') child) =
           Some (case nodes (book st) child of
                   None \<Rightarrow> finishedSearchValues env sn
                     (getMaxPolicy (getFullSymmetryNNOutput env nextHist (presumedNextMovePla nextHist)))
                 | Some c \<Rightarrow>
                     if numUniqueMovesInBook c = 0 \<and>
                        RecursiveBookValues.visits (recursiveValues c) < of_int childVisits
                     then finishedSearchValues env sn
                            (getMaxPolicy (getFullSymmetryNNOutput env nextHist (pla c)))
                     else thisValuesNotInBook c)"
proof -
  have nofollow: "follow n moveLoc = None"
    using notin by (auto simp: follow_def isMoveInBook_def map_of_eq_None_iff image_iff)
  define nh where "nh = makeBoardMoveAssumeLegal env hist moveLoc (pla n)"
  define h where "h = getHashAndSymmetry env nh (repBound (book st)) (bookVersion (book st))"
  define tr where "tr = (nodes (book st) h \<noteq> None)"
  define newChild where "newChild = \<lparr> pla = presumedNextMovePla nh, symmetries = [],
                           moves = [], thisValuesNotInBook = emptyBookValues,
                           recursiveValues = \<lparr> visits = 0 \<rparr>,
                           canExpand = True, canReExpand = True \<rparr>"
  define ns1 where "ns1 = (if tr then nodes (book st) else (nodes (book st))(h \<mapsto> newChild))"
  define b1 where "b1 = (book st)\<lparr> nodes := ns1(node \<mapsto>
                          n\<lparr> moves := moves n @ [(moveLoc, h, rawPolicy)] \<rparr>) \<rparr>"
  have legal: "isLegal env hist moveLoc (pla n)"
    using ret by (auto simp: recordChildNew_def playAndAddMove_def split: if_splits)
  have pam: "playAndAddMove env (book st) node n hist moveLoc rawPolicy = (b1, nh, Some h, tr)"
    using legal nofollow
    by (simp add: playAndAddMove_def Let_def nh_def h_def tr_def newChild_def ns1_def b1_def)
  define st1 where "st1 = logWrite (LogAdding node h moveLoc)
                           (st\<lparr> book := b1,
                                nodesHashesToUpdate := setInsert h (nodesHashesToUpdate st) \<rparr>)"
  have bst1: "book st1 = b1" by (simp add: st1_def logWrite_def)
  from ret pam obtain c where c1: "nodes b1 h = Some c"
    by (auto simp: recordChildNew_def Let_def split: option.splits)
  have unf: "recordChildNew env search node n hist moveLoc rawPolicy csn childVisits st =
    (if \<not> tr \<or> (numUniqueMovesInBook c = 0 \<and>
         RecursiveBookValues.visits (recursiveValues c) < of_int childVisits)
      then thenReturn (setNodeThisValuesFromFinishedSearch env search h csn nh [] st1)
             (h, nh, True)
      else Done (h, nh, True) st1)"
    unfolding recordChildNew_def Let_def st1_def using pam c1 by simp
  have hc: "child = h" and hn: "nextHist = nh"
    using ret unf by (auto split: if_splits dest: thenReturn_Done)
  have hne: "h \<noteq> node" using other hc by simp
  have c_cases: "(tr \<and> nodes (book st) h = Some c) \<or> (\<not> tr \<and> nodes (book st) h = None \<and> c = newChild)"
    using c1 hne by (auto simp: b1_def ns1_def tr_def split: if_splits)
  show ?thesis
  proof (cases "\<not> tr \<or> (numUniqueMovesInBook c = 0 \<and>
         RecursiveBookValues.visits (recursiveValues c) < of_int childVisits)")
    case True
    with ret unf obtain u where
      w: "setNodeThisValuesFromFinishedSearch env search h csn nh [] st1 = Done u st'"
      by (auto dest: thenReturn_Done)
    have "map_option thisValuesNotInBook (nodes (book st') h) =
        Some (finishedSearchValues env sn (getMaxPolicy (getFullSymmetryNNOutput env nh (pla c))))"
      by (rule setNodeThisValuesFromFinishedSearch_Done [OF w sn]) (simp add: bst1 c1)
    with True c_cases show ?thesis
      by (auto simp: hc hn newChild_def)
  next
    case False
    with ret unf have "st' = st1" by (auto split: if_splits)
    with False c_cases c1 show ?thesis by (auto simp: hc hn bst1)
  qed
qed

text \<open>
  C4 as amended. When the splice records a child of the search and the call returns,
  the \<^verbatim>\<open>thisValuesNotInBook\<close> of the child's book node afterwards are as follows. If the
  node was in the book already, reached by an existing edge or by a new edge that
  transposes, they are the values of the search child exactly when the node has no move
  in the book and fewer recursive visits than the search child has visits; otherwise
  they are what they were. Fewer visits alone do not suffice. If the node was not in
  the book (the new edge inserts it), they are always the values of the search child.
  (A move never leads back to the node it is played from: \<open>child \<noteq> node\<close>.)
\<close>

theorem child_values_overwritten_exactly_when:
  assumes "nodes (book st) node = Some n"
      and "recordChild env search node hist moveLoc rawPolicy childSearchNode childVisits st =
             Done (child, nextHist, added) st'"
      and "searchNodes search childSearchNode = Some csn"
      and "child \<noteq> node"
  shows "map_option thisValuesNotInBook (nodes (book st') child) =
           Some (case nodes (book st) child of
                   None \<Rightarrow>
                     finishedSearchValues env csn
                       (getMaxPolicy (getFullSymmetryNNOutput env nextHist
                          (presumedNextMovePla nextHist)))
                 | Some c \<Rightarrow>
                     if numUniqueMovesInBook c = 0 \<and>
                        RecursiveBookValues.visits (recursiveValues c) < of_int childVisits
                     then finishedSearchValues env csn
                            (getMaxPolicy (getFullSymmetryNNOutput env nextHist (pla c)))
                     else thisValuesNotInBook c)"
proof (cases "isMoveInBook n moveLoc")
  case True
  with assms(1,2) have
    "recordChildInBook env search node n hist moveLoc childSearchNode childVisits st =
       Done (child, nextHist, added) st'"
    by (simp add: recordChild_def)
  from recordChildInBook_values [OF this assms(3,4)] show ?thesis by auto
next
  case False
  with assms(1,2) have
    "recordChildNew env search node n hist moveLoc rawPolicy childSearchNode childVisits st =
       Done (child, nextHist, added) st'"
    by (simp add: recordChild_def)
  from recordChildNew_values [OF this assms(3,4) False] show ?thesis by simp
qed

text \<open>
  The claim as stated fails on \<open>exTransBook\<close>: the child of move 0 is a transposition
  with 1 recursive visit against 12 visits of the search child, and its values are not
  overwritten, because it has a move in the book.
\<close>

theorem transposed_node_with_moves_counterexample:
  "nodes (book (exState exTransBook)) 1 = Some (exNode P_WHITE [(2, 7, 1/10)] 1) \<and>
   RecursiveBookValues.visits (recursiveValues (exNode P_WHITE [(2, 7, 1/10)] 1)) < of_int 12 \<and>
   (\<exists>nextHist st'.
      recordChild exEnv exSearch 0 (exHist []) 0 (6/10) 11 12 (exState exTransBook) =
        Done (1, nextHist, True) st' \<and>
      map_option thisValuesNotInBook (nodes (book st') 1) = Some emptyBookValues \<and>
      finishedSearchValues exEnv (exSearchNode P_WHITE [] 12 2)
        (getMaxPolicy (getFullSymmetryNNOutput exEnv nextHist P_WHITE)) \<noteq> emptyBookValues)"
  by (simp add: ex_defs exTransBook_def splice_defs Let_def)

text \<open>
  The three cases on concrete books: a transposition with a move of its own keeps its
  values; a transposition without moves and with fewer visits gets the win/loss value
  1/5 of the search child; and so does a child that the new edge inserts.
\<close>

theorem child_values_overwritten_exactly_when_witness:
  "map_option thisValuesNotInBook (nodes (book (outcomeState
      (recordChild exEnv exSearch 0 (exHist []) 0 (6/10) 11 12 (exState exTransBook)))) 1) =
     Some emptyBookValues \<and>
   map_option (BookValues.winLossValue \<circ> thisValuesNotInBook) (nodes (book (outcomeState
      (recordChild exEnv exSearch 0 (exHist []) 0 (6/10) 11 12 (exState exLeafBook)))) 1) =
     Some (1/5) \<and>
   nodes (book (exState [0 \<mapsto> exNode P_BLACK [] 0])) 1 = None \<and>
   map_option (BookValues.winLossValue \<circ> thisValuesNotInBook) (nodes (book (outcomeState
      (recordChild exEnv exSearch 0 (exHist []) 0 (6/10) 11 12
         (exState [0 \<mapsto> exNode P_BLACK [] 0])))) 1) =
     Some (1/5)"
proof -
  have sn: "searchNodes exSearch 11 = Some (exSearchNode P_WHITE [] 12 2)"
    by (simp add: exSearch_def)
  have "\<exists>nextHist st'. recordChild exEnv exSearch 0 (exHist []) 0 (6/10) 11 12
          (exState exTransBook) = Done (1, nextHist, True) st'"
    by (simp add: ex_defs exTransBook_def splice_defs Let_def)
  then obtain nh1 st1 where r1: "recordChild exEnv exSearch 0 (exHist []) 0 (6/10) 11 12
          (exState exTransBook) = Done (1, nh1, True) st1" by blast
  have n1: "nodes (book (exState exTransBook)) 0 = Some (exNode P_BLACK [] 0)"
    and c1: "nodes (book (exState exTransBook)) 1 = Some (exNode P_WHITE [(2, 7, 1/10)] 1)"
    by (simp_all add: exState_def exBook_def exTransBook_def)
  have w1: "map_option thisValuesNotInBook (nodes (book st1) 1) = Some emptyBookValues"
    using child_values_overwritten_exactly_when [OF n1 r1 sn] c1
    by (simp add: exNode_def numUniqueMovesInBook_def)
  have "\<exists>nextHist st'. recordChild exEnv exSearch 0 (exHist []) 0 (6/10) 11 12
          (exState exLeafBook) = Done (1, nextHist, True) st'"
    by (simp add: ex_defs exLeafBook_def splice_defs Let_def)
  then obtain nh2 st2 where r2: "recordChild exEnv exSearch 0 (exHist []) 0 (6/10) 11 12
          (exState exLeafBook) = Done (1, nh2, True) st2" by blast
  have n2: "nodes (book (exState exLeafBook)) 0 = Some (exNode P_BLACK [] 0)"
    and c2: "nodes (book (exState exLeafBook)) 1 = Some (exNode P_WHITE [] 1)"
    by (simp_all add: exState_def exBook_def exLeafBook_def)
  have w2: "map_option (BookValues.winLossValue \<circ> thisValuesNotInBook) (nodes (book st2) 1) =
      Some (1/5)"
    using child_values_overwritten_exactly_when [OF n2 r2 sn] c2
    by (auto simp: exNode_def numUniqueMovesInBook_def finishedSearchValues_def
          exSearchNode_def exValues_def Let_def)
  have "\<exists>nextHist st'. recordChild exEnv exSearch 0 (exHist []) 0 (6/10) 11 12
          (exState [0 \<mapsto> exNode P_BLACK [] 0]) = Done (1, nextHist, True) st'"
    by (simp add: ex_defs splice_defs Let_def)
  then obtain nh3 st3 where r3: "recordChild exEnv exSearch 0 (exHist []) 0 (6/10) 11 12
          (exState [0 \<mapsto> exNode P_BLACK [] 0]) = Done (1, nh3, True) st3" by blast
  have n3: "nodes (book (exState [0 \<mapsto> exNode P_BLACK [] 0])) 0 = Some (exNode P_BLACK [] 0)"
    and c3: "nodes (book (exState [0 \<mapsto> exNode P_BLACK [] 0])) 1 = None"
    by (simp_all add: exState_def exBook_def)
  have w3: "map_option (BookValues.winLossValue \<circ> thisValuesNotInBook) (nodes (book st3) 1) =
      Some (1/5)"
    using child_values_overwritten_exactly_when [OF n3 r3 sn] c3
    by (auto simp: finishedSearchValues_def exSearchNode_def exValues_def Let_def)
  from w1 w2 w3 c3 r1 r2 r3 show ?thesis by simp
qed

subsection \<open>Results on \<^verbatim>\<open>expandNode\<close>\<close>

text \<open>
  C5. \<open>exFullBook\<close>: the root qualifies for re-expansion and all its legal moves are in the
  book. The expansion adds no edge at the root and sets \<^verbatim>\<open>canReExpand = false\<close>, and it
  writes the values of the search into the children it follows, but the root is not in
  \<^verbatim>\<open>nodesHashesToSearch\<close> (line 897 inserts it only when an edge was added), so no value
  refresh runs on it: its \<^verbatim>\<open>thisValuesNotInBook\<close> and \<^verbatim>\<open>canExpand\<close> are unchanged. With
  assertions compiled in, the assertion of line 1016 fails.
\<close>

theorem reexpansion_without_new_moves_skips_refresh:
  "(\<exists>st'. expandNode exEnv 0 (exState exFullBook) = Done () st' \<and>
      nodesHashesToSearch st' = [] \<and>
      map_option thisValuesNotInBook (nodes (book st') 0) = Some emptyBookValues \<and>
      map_option canExpand (nodes (book st') 0) = Some True \<and>
      map_option canReExpand (nodes (book st') 0) = Some False \<and>
      map_option moves (nodes (book st') 0) = Some [(0, 1, 6/10), (1, 2, 3/10), (2, 3, 1/10)] \<and>
      map_option (scoreMean \<circ> thisValuesNotInBook) (nodes (book st') 1) = Some 2) \<and>
   (\<exists>st'. expandNode (exEnv\<lparr> assertsEnabled := True, minTreeVisitsToRecord := 100 \<rparr>) 0
             (exState exFullBook) =
      Raised (AssertionFailed ''nodesHashesToSearch.find(node.hash()) != nodesHashesToSearch.end()'') st')"
  by (simp add: ex_defs exFullBook_def node_defs splice_defs upt3 Let_def)

subsection \<open>Results on the value refresh\<close>






subsection \<open>Results on the integrity check\<close>

lemma testNode_keeps: "set lg \<subseteq> set (testNode env b node lg)"
proof -
  obtain suc hist ms where "getBoardHistoryReachingHere env b node = (suc, hist, ms)"
    by (cases "getBoardHistoryReachingHere env b node") auto
  then show ?thesis by (auto simp: testNode_def Let_def)
qed

lemma checkNodes_keeps: "set lg \<subseteq> set (checkNodes env b ns k lg)"
proof (induction ns arbitrary: k lg)
  case Nil
  then show ?case by simp
next
  case (Cons node rest)
  have "set lg \<subseteq> set (testNode env b node lg)" by (rule testNode_keeps)
  also have "\<dots> \<subseteq> set (if (k + 1) mod 10000 = 0
                 then testNode env b node lg @ [Log ''Checked nodes'']
                 else testNode env b node lg)" by auto
  also have "\<dots> \<subseteq> set (checkNodes env b (node # rest) k lg)"
    using Cons.IH by (simp add: Let_def)
  finally show ?case .
qed

lemma testNode_reports:
  assumes "getBoardHistoryReachingHere env b node = (suc, hist, ms)"
      and "getHashAndSymmetry env hist (repBound b) (bookVersion b) \<noteq> node"
  shows "LogHashes ''Book failed integrity check, the node with hash '' node
           (getHashAndSymmetry env hist (repBound b) (bookVersion b)) \<in> set (testNode env b node lg)"
  using assms by (simp add: testNode_def Let_def)

lemma checkNodes_reports:
  assumes "getBoardHistoryReachingHere env b node = (suc, hist, ms)"
      and "getHashAndSymmetry env hist (repBound b) (bookVersion b) \<noteq> node"
      and "node \<in> set ns"
  shows "LogHashes ''Book failed integrity check, the node with hash '' node
           (getHashAndSymmetry env hist (repBound b) (bookVersion b)) \<in> set (checkNodes env b ns k lg)"
  using assms(3)
proof (induction ns arbitrary: k lg)
  case Nil
  then show ?case by simp
next
  case (Cons x rest)
  show ?case
  proof (cases "x = node")
    case True
    define lg2 where "lg2 = (if (k + 1) mod 10000 = 0
                 then testNode env b node lg @ [Log ''Checked nodes'']
                 else testNode env b node lg)"
    have "LogHashes ''Book failed integrity check, the node with hash '' node
           (getHashAndSymmetry env hist (repBound b) (bookVersion b)) \<in> set lg2"
      using testNode_reports [OF assms(1,2), of lg] by (simp add: lg2_def)
    moreover have "set lg2 \<subseteq> set (checkNodes env b rest (k + 1) lg2)"
      by (rule checkNodes_keeps)
    moreover have "checkNodes env b (x # rest) k lg = checkNodes env b rest (k + 1) lg2"
      using True by (simp add: Let_def lg2_def)
    ultimately show ?thesis by auto
  next
    case False
    with Cons.prems have "node \<in> set rest" by simp
    from Cons.IH [OF this] show ?thesis by (simp add: Let_def)
  qed
qed

text \<open>
  C1 as amended. For a node selected for expansion in a book of version 2 or later whose
  rebuilt history hashes to another hash than the node's: in genbook, \<^verbatim>\<open>expandNode\<close>
  logs the moves and throws (the book is left as it was: \<^verbatim>\<open>canExpand\<close> is not changed
  and the expansion does not return); in checkbook, \<^verbatim>\<open>testNode\<close> logs the failure and
  the command goes on to the end with exit code 0. What genbook answers by logging,
  marking the node \<^verbatim>\<open>canExpand = false\<close> and returning is a history that cannot be
  rebuilt at all (lines 916-929): six lines are logged, the node is marked, every other
  node and the sets of the worker are as they were.
\<close>

theorem integrity_failure_fatal_in_genbook_logged_in_checkbook:
  assumes "nodes (book st) node = Some n"
  shows "(getBoardHistoryReachingHere env (book st) node = (True, hist, ms) \<and>
          2 \<le> bookVersion (book st) \<and>
          getHashAndSymmetry env hist (repBound (book st)) (bookVersion (book st)) \<noteq> node \<and>
          node \<in> set allNodes \<longrightarrow>
            expandNode env node st =
              Raised (StringError ''Book failed integrity check'')
                (logWrite (LogBoardAndMoves hist ms) (logWrite (Log ''Moves:'') st)) \<and>
            book (logWrite (LogBoardAndMoves hist ms) (logWrite (Log ''Moves:'') st)) = book st \<and>
            (\<exists>lg. checkbook env (book st) allNodes = Done 0 lg \<and>
               LogHashes ''Book failed integrity check, the node with hash '' node
                 (getHashAndSymmetry env hist (repBound (book st)) (bookVersion (book st)))
                 \<in> set lg)) \<and>
         (getBoardHistoryReachingHere env (book st) node = (False, hist, ms) \<longrightarrow>
            (\<exists>st'. expandNode env node st = Done () st' \<and>
               nodes (book st') node = Some (n\<lparr> canExpand := False \<rparr>) \<and>
               (\<forall>h. h \<noteq> node \<longrightarrow> nodes (book st') h = nodes (book st) h) \<and>
               logLines st' = logLines st @
                 [Log ''WARNING: Failed to get board history reaching node when trying to expand book, probably there is some bug'',
                  Log ''or else some hash collision or something else is wrong.'',
                  LogHash ''BookHash of node unable to expand: '' node,
                  Log ''Moves:'',
                  LogMoves ms,
                  Log ''Marking node as done so we don't try to expand it again, but something is probably wrong.''] \<and>
               nodesHashesToSearch st' = nodesHashesToSearch st \<and>
               nodesHashesToUpdate st' = nodesHashesToUpdate st \<and>
               newAndChangedNodes st' = newAndChangedNodes st))"
proof (intro conjI impI)
  assume h: "getBoardHistoryReachingHere env (book st) node = (True, hist, ms) \<and>
          2 \<le> bookVersion (book st) \<and>
          getHashAndSymmetry env hist (repBound (book st)) (bookVersion (book st)) \<noteq> node \<and>
          node \<in> set allNodes"
  then have reach: "getBoardHistoryReachingHere env (book st) node = (True, hist, ms)"
    and ne: "getHashAndSymmetry env hist (repBound (book st)) (bookVersion (book st)) \<noteq> node"
    and mem: "node \<in> set allNodes"
    by simp_all
  show "expandNode env node st =
           Raised (StringError ''Book failed integrity check'')
             (logWrite (LogBoardAndMoves hist ms) (logWrite (Log ''Moves:'') st))"
    using assms h by (simp add: expandNode_def)
  show "book (logWrite (LogBoardAndMoves hist ms) (logWrite (Log ''Moves:'') st)) = book st"
    by (simp add: logWrite_def)
  show "\<exists>lg. checkbook env (book st) allNodes = Done 0 lg \<and>
            LogHashes ''Book failed integrity check, the node with hash '' node
              (getHashAndSymmetry env hist (repBound (book st)) (bookVersion (book st)))
              \<in> set lg"
    using checkNodes_reports [OF reach ne mem] by (simp add: checkbook_def)
next
  assume "getBoardHistoryReachingHere env (book st) node = (False, hist, ms)"
  with assms show "\<exists>st'. expandNode env node st = Done () st' \<and>
               nodes (book st') node = Some (n\<lparr> canExpand := False \<rparr>) \<and>
               (\<forall>h. h \<noteq> node \<longrightarrow> nodes (book st') h = nodes (book st) h) \<and>
               logLines st' = logLines st @
                 [Log ''WARNING: Failed to get board history reaching node when trying to expand book, probably there is some bug'',
                  Log ''or else some hash collision or something else is wrong.'',
                  LogHash ''BookHash of node unable to expand: '' node,
                  Log ''Moves:'',
                  LogMoves ms,
                  Log ''Marking node as done so we don't try to expand it again, but something is probably wrong.''] \<and>
               nodesHashesToSearch st' = nodesHashesToSearch st \<and>
               nodesHashesToUpdate st' = nodesHashesToUpdate st \<and>
               newAndChangedNodes st' = newAndChangedNodes st"
    by (simp add: expandNode_def putNode_def logWrite_def)
qed

text \<open>
  The claim as stated fails on \<open>exBadBook\<close>: genbook throws on node 7 and leaves it
  expandable; checkbook reports node 7 and ends normally.
\<close>

theorem integrity_failure_counterexample:
  "(\<exists>st'. expandNode exEnv 7 (exState exBadBook) =
       Raised (StringError ''Book failed integrity check'') st' \<and>
     map_option canExpand (nodes (book st') 7) = Some True) \<and>
   checkbook exEnv (exBook exBadBook) [0, 7] =
     Done 0 [Log ''Checking book...'',
             LogHashes ''Book failed integrity check, the node with hash '' 7 1,
             Log ''Moves:'',
             LogBoardAndMoves (exHist [(0, P_BLACK)]) [0],
             Log ''DONE'']"
  by (simp add: ex_defs exBadBook_def expandNode_def logWrite_def checkbook_def testNode_def Let_def)

text \<open>
  On \<open>exBadBook\<close>, node 7 fails the integrity check. With a node 9 that no history
  reaches, the expansion of node 9 returns and leaves it marked.
\<close>

theorem integrity_failure_fatal_in_genbook_logged_in_checkbook_witness:
  "expandNode exEnv 7 (exState exBadBook) =
     Raised (StringError ''Book failed integrity check'')
       (logWrite (LogBoardAndMoves (exHist [(0, P_BLACK)]) [0])
          (logWrite (Log ''Moves:'') (exState exBadBook))) \<and>
   (\<exists>lg. checkbook exEnv (book (exState exBadBook)) [0, 7] = Done 0 lg \<and>
      LogHashes ''Book failed integrity check, the node with hash '' 7 1 \<in> set lg) \<and>
   getBoardHistoryReachingHere exEnv (book (exState (exBadBook(9 \<mapsto> exNode P_WHITE [] 0)))) 9 =
     (False, exHist [], []) \<and>
   (\<exists>st'. expandNode exEnv 9 (exState (exBadBook(9 \<mapsto> exNode P_WHITE [] 0))) = Done () st' \<and>
      map_option canExpand (nodes (book st') 9) = Some False \<and>
      length (logLines st') = 6)"
proof -
  have n: "nodes (book (exState exBadBook)) 7 = Some (exNode P_WHITE [] 0)"
    by (simp add: exState_def exBook_def exBadBook_def)
  have reach: "getBoardHistoryReachingHere exEnv (book (exState exBadBook)) 7 =
      (True, exHist [(0, P_BLACK)], [0])"
    by (simp add: exEnv_def exReach_def)
  have v: "2 \<le> bookVersion (book (exState exBadBook))"
    by (simp add: exState_def exBook_def)
  have h: "getHashAndSymmetry exEnv (exHist [(0, P_BLACK)]) (repBound (book (exState exBadBook)))
             (bookVersion (book (exState exBadBook))) = 1"
    by (simp add: exEnv_def exHash_def exHist_def)
  have ne: "getHashAndSymmetry exEnv (exHist [(0, P_BLACK)]) (repBound (book (exState exBadBook)))
             (bookVersion (book (exState exBadBook))) \<noteq> 7"
    by (simp add: h)
  have mem: "(7::nat) \<in> set [0, 7]" by simp
  note t1 = integrity_failure_fatal_in_genbook_logged_in_checkbook
              [OF n, where env = exEnv and hist = "exHist [(0, P_BLACK)]" and ms = "[0]"
                 and allNodes = "[0, 7]"]
  from t1 reach v ne mem have a:
    "expandNode exEnv 7 (exState exBadBook) =
       Raised (StringError ''Book failed integrity check'')
         (logWrite (LogBoardAndMoves (exHist [(0, P_BLACK)]) [0])
            (logWrite (Log ''Moves:'') (exState exBadBook)))"
    and b: "\<exists>lg. checkbook exEnv (book (exState exBadBook)) [0, 7] = Done 0 lg \<and>
      LogHashes ''Book failed integrity check, the node with hash '' 7 1 \<in> set lg"
    by (simp_all add: h)
  define st9 where "st9 = exState (exBadBook(9 \<mapsto> exNode P_WHITE [] 0))"
  have n9: "nodes (book st9) 9 = Some (exNode P_WHITE [] 0)"
    by (simp add: st9_def exState_def exBook_def)
  have reach9: "getBoardHistoryReachingHere exEnv (book st9) 9 = (False, exHist [], [])"
    by (simp add: exEnv_def exReach_def)
  note t2 = integrity_failure_fatal_in_genbook_logged_in_checkbook
              [OF n9, where env = exEnv and hist = "exHist []" and ms = "[]"]
  from t2 reach9 obtain st' where
    r9: "expandNode exEnv 9 st9 = Done () st'" and
    c9: "nodes (book st') 9 = Some ((exNode P_WHITE [] 0)\<lparr> canExpand := False \<rparr>)" and
    l9: "logLines st' = logLines st9 @
           [Log ''WARNING: Failed to get board history reaching node when trying to expand book, probably there is some bug'',
            Log ''or else some hash collision or something else is wrong.'',
            LogHash ''BookHash of node unable to expand: '' 9,
            Log ''Moves:'',
            LogMoves [],
            Log ''Marking node as done so we don't try to expand it again, but something is probably wrong.'']"
    by blast
  have "map_option canExpand (nodes (book st') 9) = Some False" using c9 by simp
  moreover have "length (logLines st') = 6" using l9 by (simp add: st9_def exState_def)
  ultimately have c: "\<exists>st'. expandNode exEnv 9 st9 = Done () st' \<and>
      map_option canExpand (nodes (book st') 9) = Some False \<and>
      length (logLines st') = 6"
    using r9 by blast
  from a b reach9 c show ?thesis unfolding st9_def by (intro conjI)
qed

subsection \<open>Results on start-up\<close>

lemmas startup_defs = genbookStartup_def readBonusFile_def loadOrCreateBook_def
  loadTraceBook_def bonusCallbacks.simps bonusCallback_def replayTolerant.simps
  stringFind.simps bonusBookVersions_def addBonus_def changedParams_def

lemmas ex_startup_defs = exNewBook_def exSgf_def exStartupEnv_def exStartupState_def
  exArgs_def

lemma upto_1_1: "[1..(1::int)] = [1]"
  by (simp add: upto.simps)

text \<open>
  C2. The loop of line 182 stops before \<^verbatim>\<open>Book::LATEST_BOOK_VERSION\<close>. With two book
  versions, the bonus of the commented position is stored under its hash of version 1
  only; under its hash of the latest version, the one by which a book built now finds
  the node, \<^verbatim>\<open>bonusByHash\<close> has no entry.
\<close>

theorem bonus_misses_latest_book_version:
  "LATEST_BOOK_VERSION exStartupEnv = 2 \<and>
   bonusBookVersions exStartupEnv = [1] \<and>
   (\<exists>st'. bonusCallbacks exStartupEnv (uniquePositions exSgf) exStartupState = Done () st' \<and>
      bonusByHash st' (hashAndSymmetry exStartupEnv (exHist [(0, P_BLACK)]) 5 1) = Some 1 \<and>
      bonusByHash st' (hashAndSymmetry exStartupEnv (exHist [(0, P_BLACK)]) 5
                         (LATEST_BOOK_VERSION exStartupEnv)) = None)"
  by (simp add: ex_startup_defs ex_defs startup_defs upto_1_1 Let_def)

text \<open>
  In general: a bonus is stored under the hashes of the versions below
  \<^verbatim>\<open>LATEST_BOOK_VERSION\<close> only; an entry of another hash is left as it was.
\<close>

lemma addBonus_fold_other:
  "h \<notin> (\<lambda>v. hashAndSymmetry env hist (cfgRepBound env) v) ` set vs \<Longrightarrow>
   bonusByHash (foldl (addBonus env hist bonus) st vs) h = bonusByHash st h"
  by (induction vs arbitrary: st) (auto simp: addBonus_def)

lemma bonus_only_below_latest_version:
  assumes "\<forall>v. 1 \<le> v \<and> v < LATEST_BOOK_VERSION env \<longrightarrow>
             hashAndSymmetry env hist (cfgRepBound env) v \<noteq>
             hashAndSymmetry env hist (cfgRepBound env) (LATEST_BOOK_VERSION env)"
  shows "bonusByHash (foldl (addBonus env hist bonus) st (bonusBookVersions env))
           (hashAndSymmetry env hist (cfgRepBound env) (LATEST_BOOK_VERSION env)) =
         bonusByHash st (hashAndSymmetry env hist (cfgRepBound env) (LATEST_BOOK_VERSION env))"
  using assms by (intro addBonus_fold_other) (auto simp: bonusBookVersions_def)

lemma disk_addBonus_fold [simp]:
  "disk (foldl (addBonus env hist bonus) st vs) = disk st"
  "theBook (foldl (addBonus env hist bonus) st vs) = theBook st"
  "madeDirs (foldl (addBonus env hist bonus) st vs) = madeDirs st"
  by (induction vs arbitrary: st) (simp_all add: addBonus_def)









end
